theory Spec2Isabelle
  imports Complex_Main "HOL-Library.Sublist"
begin

section \<open>JavaScript values\<close>

text \<open>
  Messages, payloads and parsed JSON are JavaScript values. \<open>JNum\<close> carries the
  integral numbers, \<open>JNaN\<close> the not-a-number value, \<open>JFunction\<close> an opaque callable
  (what a prototype contributes under names such as \<open>toString\<close>). An object is the list
  of its own enumerable properties in enumeration order; a string is the sequence of
  its code units.
\<close>

datatype jsval =
    JUndefined
  | JNull
  | JBool bool
  | JNum int
  | JNaN
  | JStr string
  | JArr "jsval list"
  | JObj "(string \<times> jsval) list"
  | JFunction string

text \<open>
  An array index is a canonical decimal numeral below \<open>2^32 - 1\<close>: such property names
  are the elements of an array, and they are enumerated first, in ascending order.
\<close>

definition digit_val :: "char \<Rightarrow> nat option" where
  "digit_val c =
     (let n = of_char c :: nat in if 48 \<le> n \<and> n \<le> 57 then Some (n - 48) else None)"

fun decimal_value :: "nat \<Rightarrow> string \<Rightarrow> nat option" where
  "decimal_value acc [] = Some acc"
| "decimal_value acc (c # cs) =
     (case digit_val c of None \<Rightarrow> None | Some d \<Rightarrow> decimal_value (acc * 10 + d) cs)"

definition array_index :: "string \<Rightarrow> nat option" where
  "array_index k =
     (if k = [] then None
      else if hd k = CHR ''0'' \<and> tl k \<noteq> [] then None
      else case decimal_value 0 k of
             None \<Rightarrow> None
           | Some n \<Rightarrow> if n < 4294967295 then Some n else None)"

text \<open>Own properties: what \<open>message[key]\<close> finds on the value itself.\<close>

fun own_property :: "jsval \<Rightarrow> string \<Rightarrow> jsval option" where
  "own_property (JObj kvs) k = map_of kvs k"
| "own_property (JArr xs) k =
     (if k = ''length'' then Some (JNum (int (length xs)))
      else case array_index k of
             None \<Rightarrow> None
           | Some i \<Rightarrow> if i < length xs then Some (xs ! i) else None)"
| "own_property (JStr s) k =
     (if k = ''length'' then Some (JNum (int (length s)))
      else case array_index k of
             None \<Rightarrow> None
           | Some i \<Rightarrow> if i < length s then Some (JStr [s ! i]) else None)"
| "own_property _ k = None"

text \<open>
  The prototype chain is a parameter: \<open>inh v k\<close> is the property \<open>k\<close> that the value
  \<open>v\<close> inherits, if any. \<open>has_property\<close> is the operator \<open>key in message\<close> and
  \<open>get_property\<close> the read \<open>message[key]\<close>, own properties first.
\<close>

type_synonym prototypes = "jsval \<Rightarrow> string \<Rightarrow> jsval option"

definition has_property :: "prototypes \<Rightarrow> jsval \<Rightarrow> string \<Rightarrow> bool" where
  "has_property inh v k = (own_property v k \<noteq> None \<or> inh v k \<noteq> None)"

definition get_property :: "prototypes \<Rightarrow> jsval \<Rightarrow> string \<Rightarrow> jsval" where
  "get_property inh v k =
     (case own_property v k of
        Some x \<Rightarrow> x
      | None \<Rightarrow> (case inh v k of Some x \<Rightarrow> x | None \<Rightarrow> JUndefined))"

text \<open>\<open>typeof v === 'object'\<close>: true of null, of arrays and of objects.\<close>

fun typeof_object :: "jsval \<Rightarrow> bool" where
  "typeof_object JNull = True"
| "typeof_object (JArr xs) = True"
| "typeof_object (JObj kvs) = True"
| "typeof_object _ = False"

text \<open>Truthiness, as \<open>if (v)\<close> and \<open>v && w\<close> read a value.\<close>

fun truthy :: "jsval \<Rightarrow> bool" where
  "truthy JUndefined = False"
| "truthy JNull = False"
| "truthy (JBool b) = b"
| "truthy (JNum n) = (n \<noteq> 0)"
| "truthy JNaN = False"
| "truthy (JStr s) = (s \<noteq> [])"
| "truthy _ = True"

text \<open>
  Property assignment \<open>obj[k] = v\<close> on an object kept in enumeration order: an existing
  key keeps its place, a new array index goes among the indices in ascending order, any
  other new key goes last. (The name \<open>__proto__\<close>, which assignment takes for the
  prototype, is left out.)
\<close>

definition index_below :: "nat \<Rightarrow> string \<times> 'a \<Rightarrow> bool" where
  "index_below i kv = (case array_index (fst kv) of None \<Rightarrow> False | Some j \<Rightarrow> j < i)"

definition js_set :: "string \<Rightarrow> 'a \<Rightarrow> (string \<times> 'a) list \<Rightarrow> (string \<times> 'a) list" where
  "js_set k v kvs =
     (if k \<in> fst ` set kvs then map (\<lambda>kv. if fst kv = k then (k, v) else kv) kvs
      else case array_index k of
             None \<Rightarrow> kvs @ [(k, v)]
           | Some i \<Rightarrow> takeWhile (index_below i) kvs @ [(k, v)] @ dropWhile (index_below i) kvs)"

section \<open>The message validator (client/utils/message-validator.js)\<close>

subsection \<open>Predefined rules\<close>

definition isString :: "jsval \<Rightarrow> bool" where
  "isString message = (case message of JStr s \<Rightarrow> True | _ \<Rightarrow> False)"

definition isObject :: "jsval \<Rightarrow> bool" where
  "isObject message = (typeof_object message \<and> message \<noteq> JNull \<and> (case message of JArr xs \<Rightarrow> False | _ \<Rightarrow> True))"

definition isArray :: "jsval \<Rightarrow> bool" where
  "isArray message = (case message of JArr xs \<Rightarrow> True | _ \<Rightarrow> False)"

definition isNumber :: "jsval \<Rightarrow> bool" where
  "isNumber message = (case message of JNum n \<Rightarrow> True | _ \<Rightarrow> False)"

definition isBoolean :: "jsval \<Rightarrow> bool" where
  "isBoolean message = (case message of JBool b \<Rightarrow> True | _ \<Rightarrow> False)"

text \<open>
  A schema maps field names to validators; a validator is a function (a predicate, which
  may raise: \<open>Inl\<close> carries the text of the exception) or a nested schema. The schema is
  given as its entries, in the order \<open>Object.entries\<close> enumerates them.
\<close>

datatype field_validator =
    Predicate "jsval \<Rightarrow> string + bool"
  | Nested "(string \<times> field_validator) list"

definition endsWith_qmark :: "string \<Rightarrow> bool" where
  "endsWith_qmark key = (key \<noteq> [] \<and> last key = CHR ''?'')"

text \<open>
  \<open>matchesSchema(schema)(message)\<close>. \<open>schema_entries\<close> is the \<open>for\<close> loop over the
  entries, \<open>apply_validator\<close> the test \<open>typeof validator === 'function'\<close> with its two
  branches. A \<open>return false\<close> ends the loop, and so does an exception of a predicate.
\<close>

fun matchesSchema :: "prototypes \<Rightarrow> (string \<times> field_validator) list \<Rightarrow> jsval \<Rightarrow> string + bool"
and schema_entries :: "prototypes \<Rightarrow> (string \<times> field_validator) list \<Rightarrow> jsval \<Rightarrow> string + bool"
and apply_validator :: "prototypes \<Rightarrow> field_validator \<Rightarrow> jsval \<Rightarrow> string + bool"
where
  "matchesSchema inh schema message =
     (if \<not> typeof_object message \<or> message = JNull then Inr False
      else schema_entries inh schema message)"
| "schema_entries inh [] message = Inr True"
| "schema_entries inh ((key, fv) # rest) message =
     (if endsWith_qmark key then
        (let actualKey = butlast key in
         if has_property inh message actualKey \<and> get_property inh message actualKey \<noteq> JUndefined then
           (case apply_validator inh fv (get_property inh message actualKey) of
              Inl e \<Rightarrow> Inl e
            | Inr False \<Rightarrow> Inr False
            | Inr True \<Rightarrow> schema_entries inh rest message)
         else schema_entries inh rest message)
      else
        (if \<not> has_property inh message key then Inr False
         else (case apply_validator inh fv (get_property inh message key) of
              Inl e \<Rightarrow> Inl e
            | Inr False \<Rightarrow> Inr False
            | Inr True \<Rightarrow> schema_entries inh rest message)))"
| "apply_validator inh (Predicate f) v = f v"
| "apply_validator inh (Nested schema) v = matchesSchema inh schema v"

subsection \<open>Rules, results and statistics\<close>

text \<open>
  A rule's validator takes the message and the context; it returns a truth value or
  raises. The entries of \<open>results.errors\<close>, of \<open>results.warnings\<close> and of
  \<open>stats.errors\<close> are three object shapes; their fields are prefixed here, since a
  field name belongs to one record.
\<close>

record 'c rule_config =
  validator :: "jsval \<Rightarrow> 'c \<Rightarrow> string + bool"
  required :: bool
  errorMessage :: string

record error_entry =
  err_rule :: string
  err_message :: string
  err_required :: bool

record warning_entry =
  warn_rule :: string
  warn_message :: string

record log_entry =
  log_rule :: string
  log_message :: string
  log_timestamp :: string

record 'c validation_result =
  isValid :: bool
  errors :: "error_entry list"
  warnings :: "warning_entry list"
  resultContext :: 'c

record validator_stats =
  validated :: nat
  passed :: nat
  failed :: nat
  errorLog :: "log_entry list"

record 'c message_validator =
  validationRules :: "(string \<times> 'c rule_config) list"
  responseHandlers :: "(string \<times> (jsval \<Rightarrow> string + jsval)) list"
  vstats :: validator_stats
  middleware :: "(jsval \<Rightarrow> 'c \<Rightarrow> string + jsval) option"

definition initial_stats :: validator_stats where
  "initial_stats = \<lparr>validated = 0, passed = 0, failed = 0, errorLog = []\<rparr>"

text \<open>The constructor: \<open>options.rules || {}\<close>, \<open>options.handlers || {}\<close>, fresh statistics.\<close>

definition new_validator ::
  "(string \<times> 'c rule_config) list option \<Rightarrow> (string \<times> (jsval \<Rightarrow> string + jsval)) list option
   \<Rightarrow> 'c message_validator" where
  "new_validator rules handlers =
     \<lparr>validationRules = (case rules of None \<Rightarrow> [] | Some r \<Rightarrow> r),
      responseHandlers = (case handlers of None \<Rightarrow> [] | Some h \<Rightarrow> h),
      vstats = initial_stats,
      middleware = None\<rparr>"

definition default_errorMessage :: "string \<Rightarrow> string" where
  "default_errorMessage name = ''Validation failed for rule: '' @ name"

text \<open>
  \<open>addRule(name, validatorFn, options)\<close>: \<open>required\<close> is \<open>options.required !== false\<close>,
  the message is \<open>options.errorMessage\<close> unless that is missing or empty.
\<close>

definition addRule ::
  "string \<Rightarrow> (jsval \<Rightarrow> 'c \<Rightarrow> string + bool) \<Rightarrow> bool option \<Rightarrow> string option
   \<Rightarrow> 'c message_validator \<Rightarrow> 'c message_validator" where
  "addRule name validatorFn opt_required opt_errorMessage mv =
     mv\<lparr>validationRules :=
          js_set name
            \<lparr>validator = validatorFn,
             required = (opt_required \<noteq> Some False),
             errorMessage = (case opt_errorMessage of
                               None \<Rightarrow> default_errorMessage name
                             | Some m \<Rightarrow> if m = [] then default_errorMessage name else m)\<rparr>
            (validationRules mv)\<rparr>"

definition addHandler ::
  "string \<Rightarrow> (jsval \<Rightarrow> string + jsval) \<Rightarrow> 'c message_validator \<Rightarrow> 'c message_validator" where
  "addHandler type handlerFn mv = mv\<lparr>responseHandlers := js_set type handlerFn (responseHandlers mv)\<rparr>"

definition useValidationMiddleware ::
  "(jsval \<Rightarrow> 'c \<Rightarrow> string + jsval) \<Rightarrow> 'c message_validator \<Rightarrow> 'c message_validator" where
  "useValidationMiddleware mw mv = mv\<lparr>middleware := Some mw\<rparr>"

text \<open>
  The loop of \<open>validate\<close> over the rules. \<open>clock i\<close> is what
  \<open>new Date().toISOString()\<close> reads during the \<open>i\<close>-th iteration.
\<close>

definition rule_error :: "string \<Rightarrow> 'c rule_config \<Rightarrow> error_entry" where
  "rule_error ruleName ruleConfig =
     \<lparr>err_rule = ruleName, err_message = errorMessage ruleConfig, err_required = required ruleConfig\<rparr>"

definition rule_raised :: "string \<Rightarrow> 'c rule_config \<Rightarrow> string \<Rightarrow> error_entry" where
  "rule_raised ruleName ruleConfig e =
     \<lparr>err_rule = ruleName, err_message = ''Validation rule error: '' @ e,
      err_required = required ruleConfig\<rparr>"

definition rule_warning :: "string \<Rightarrow> 'c rule_config \<Rightarrow> warning_entry" where
  "rule_warning ruleName ruleConfig =
     \<lparr>warn_rule = ruleName, warn_message = errorMessage ruleConfig\<rparr>"

definition rule_log :: "string \<Rightarrow> 'c rule_config \<Rightarrow> string \<Rightarrow> log_entry" where
  "rule_log ruleName ruleConfig now =
     \<lparr>log_rule = ruleName, log_message = errorMessage ruleConfig, log_timestamp = now\<rparr>"

fun validate_rule ::
  "(nat \<Rightarrow> string) \<Rightarrow> nat \<Rightarrow> string \<times> 'c rule_config \<Rightarrow> jsval \<Rightarrow> 'c
   \<Rightarrow> 'c validation_result \<times> validator_stats \<Rightarrow> 'c validation_result \<times> validator_stats" where
  "validate_rule clock i (ruleName, ruleConfig) message ctx (results, st) =
     (case validator ruleConfig message ctx of
        Inl e \<Rightarrow>
          (results\<lparr>isValid := False,
                   errors := errors results @ [rule_raised ruleName ruleConfig e]\<rparr>, st)
      | Inr False \<Rightarrow>
          (let results1 = results\<lparr>isValid := False,
                                   errors := errors results @ [rule_error ruleName ruleConfig]\<rparr>
           in if required ruleConfig
              then (results1,
                    st\<lparr>failed := failed st + 1,
                       errorLog := errorLog st @ [rule_log ruleName ruleConfig (clock i)]\<rparr>)
              else (results1\<lparr>warnings := warnings results1 @ [rule_warning ruleName ruleConfig]\<rparr>,
                    st))
      | Inr True \<Rightarrow> (results\<lparr>isValid := (isValid results \<and> True)\<rparr>, st))"

fun validate_loop ::
  "(nat \<Rightarrow> string) \<Rightarrow> nat \<Rightarrow> (string \<times> 'c rule_config) list \<Rightarrow> jsval \<Rightarrow> 'c
   \<Rightarrow> 'c validation_result \<times> validator_stats \<Rightarrow> 'c validation_result \<times> validator_stats" where
  "validate_loop clock i [] message ctx acc = acc"
| "validate_loop clock i (entry # rest) message ctx acc =
     validate_loop clock (Suc i) rest message ctx (validate_rule clock i entry message ctx acc)"

definition validate ::
  "(nat \<Rightarrow> string) \<Rightarrow> 'c message_validator \<Rightarrow> jsval \<Rightarrow> 'c
   \<Rightarrow> 'c validation_result \<times> 'c message_validator" where
  "validate clock mv message ctx =
     (let (results, st) =
            validate_loop clock 0 (validationRules mv) message ctx
              (\<lparr>isValid = True, errors = [], warnings = [], resultContext = ctx\<rparr>, vstats mv);
          st1 = st\<lparr>validated := validated st + 1\<rparr>;
          st2 = (if isValid results then st1\<lparr>passed := passed st1 + 1\<rparr> else st1)
      in (results, mv\<lparr>vstats := st2\<rparr>))"

text \<open>\<open>validateWithMiddleware\<close>: the middleware transforms the message or raises.\<close>

definition validateWithMiddleware ::
  "(nat \<Rightarrow> string) \<Rightarrow> 'c message_validator \<Rightarrow> jsval \<Rightarrow> 'c
   \<Rightarrow> 'c validation_result \<times> 'c message_validator" where
  "validateWithMiddleware clock mv message ctx =
     (case middleware mv of
        Some mw \<Rightarrow>
          (case mw message ctx of
             Inr processedMessage \<Rightarrow> validate clock mv processedMessage ctx
           | Inl e \<Rightarrow>
               (\<lparr>isValid = False,
                 errors = [\<lparr>err_rule = ''middleware'', err_message = e, err_required = True\<rparr>],
                 warnings = [], resultContext = ctx\<rparr>, mv))
      | None \<Rightarrow> validate clock mv message ctx)"

definition getStats :: "'c message_validator \<Rightarrow> validator_stats" where
  "getStats mv = vstats mv"

definition resetStats :: "'c message_validator \<Rightarrow> 'c message_validator" where
  "resetStats mv = mv\<lparr>vstats := \<lparr>validated = 0, passed = 0, failed = 0, errorLog = []\<rparr>\<rparr>"

text \<open>
  \<open>handleResponse\<close> picks the handler of the response type, else the handler named
  \<open>default\<close>, else \<open>defaultResponseHandler\<close>, which describes the message (\<open>parse\<close>
  is \<open>JSON.parse\<close>, \<open>None\<close> when it raises; binary data is not among the values
  modelled). The read \<open>this.responseHandlers[responseType]\<close> finds the handlers that
  were registered and, failing that, the members that the object inherits, such as
  \<open>toString\<close> and \<open>constructor\<close>: \<open>proto\<close> gives each inherited member as what
  calling it does (a member that is not a function raises when called).
  \<open>transformMessage\<close> applies the transformations in turn. Both return a
  value and assign to no field of the validator.
\<close>

definition lookup_handler ::
  "(string \<Rightarrow> (jsval \<Rightarrow> string + jsval) option) \<Rightarrow> 'c message_validator \<Rightarrow> string
     \<Rightarrow> (jsval \<Rightarrow> string + jsval) option" where
  "lookup_handler proto mv key =
     (case map_of (responseHandlers mv) key of
        Some h \<Rightarrow> Some h
      | None \<Rightarrow> proto key)"

definition defaultResponseHandler :: "(string \<Rightarrow> jsval option) \<Rightarrow> jsval \<Rightarrow> jsval" where
  "defaultResponseHandler parse message =
     (case message of
        JStr text \<Rightarrow>
          (case parse text of
             Some parsed \<Rightarrow>
               JObj [(''type'', JStr ''parsed_json''), (''data'', parsed), (''raw'', message)]
           | None \<Rightarrow> JObj [(''type'', JStr ''raw_string''), (''data'', message)])
      | _ \<Rightarrow> JObj [(''type'', JStr ''unknown''), (''data'', message)])"

definition handleResponse ::
  "(string \<Rightarrow> jsval option) \<Rightarrow> (string \<Rightarrow> (jsval \<Rightarrow> string + jsval) option)
     \<Rightarrow> 'c message_validator \<Rightarrow> jsval \<Rightarrow> string \<Rightarrow> string + jsval" where
  "handleResponse parse proto mv message responseType =
     (case (case lookup_handler proto mv responseType of
              Some h \<Rightarrow> Some h
            | None \<Rightarrow> lookup_handler proto mv ''default'') of
        Some handler \<Rightarrow> handler message
      | None \<Rightarrow> Inr (defaultResponseHandler parse message))"

definition transformMessage :: "jsval \<Rightarrow> (jsval \<Rightarrow> jsval) list \<Rightarrow> jsval" where
  "transformMessage message transformations = fold (\<lambda>transform result. transform result) transformations message"

text \<open>
  The operations on a validator object, as one datatype, so that a property of every
  operation is a property of \<open>apply_op\<close>, which gives the validator they leave.
\<close>

datatype 'c validator_op =
    OpAddRule string "jsval \<Rightarrow> 'c \<Rightarrow> string + bool" "bool option" "string option"
  | OpAddHandler string "jsval \<Rightarrow> string + jsval"
  | OpUseValidationMiddleware "jsval \<Rightarrow> 'c \<Rightarrow> string + jsval"
  | OpValidate "nat \<Rightarrow> string" jsval 'c
  | OpValidateWithMiddleware "nat \<Rightarrow> string" jsval 'c
  | OpHandleResponse jsval string
  | OpTransformMessage jsval "(jsval \<Rightarrow> jsval) list"
  | OpGetStats
  | OpResetStats

fun apply_op :: "'c validator_op \<Rightarrow> 'c message_validator \<Rightarrow> 'c message_validator" where
  "apply_op (OpAddRule name f req msg) mv = addRule name f req msg mv"
| "apply_op (OpAddHandler type h) mv = addHandler type h mv"
| "apply_op (OpUseValidationMiddleware mw) mv = useValidationMiddleware mw mv"
| "apply_op (OpValidate clock message ctx) mv = snd (validate clock mv message ctx)"
| "apply_op (OpValidateWithMiddleware clock message ctx) mv =
     snd (validateWithMiddleware clock mv message ctx)"
| "apply_op (OpHandleResponse message responseType) mv = mv"
| "apply_op (OpTransformMessage message transformations) mv = mv"
| "apply_op OpGetStats mv = mv"
| "apply_op OpResetStats mv = resetStats mv"

fun is_reset :: "'c validator_op \<Rightarrow> bool" where
  "is_reset OpResetStats = True"
| "is_reset _ = False"

definition stats_grow :: "validator_stats \<Rightarrow> validator_stats \<Rightarrow> bool" where
  "stats_grow st st' =
     (validated st \<le> validated st' \<and> passed st \<le> passed st' \<and> failed st \<le> failed st'
      \<and> prefix (errorLog st) (errorLog st'))"

subsection \<open>What the specification says of the validator, for comparison\<close>

text \<open>
  The verdict the specification gives for a schema, written as a conjunction over the
  declared keys instead of a loop: the message is an object, every key without the
  suffix is a property of the message whose value its validator accepts, and every key
  with the suffix that is present with a value other than \<open>undefined\<close> has a value
  its validator accepts.
\<close>

fun spec_schema_accepts :: "prototypes \<Rightarrow> (string \<times> field_validator) list \<Rightarrow> jsval \<Rightarrow> bool"
and spec_fields_accept :: "prototypes \<Rightarrow> (string \<times> field_validator) list \<Rightarrow> jsval \<Rightarrow> bool"
and spec_validator_accepts :: "prototypes \<Rightarrow> field_validator \<Rightarrow> jsval \<Rightarrow> bool"
where
  "spec_schema_accepts inh schema message =
     (typeof_object message \<and> message \<noteq> JNull \<and> spec_fields_accept inh schema message)"
| "spec_fields_accept inh [] message = True"
| "spec_fields_accept inh ((key, fv) # rest) message =
     ((if endsWith_qmark key
       then (has_property inh message (butlast key)
               \<and> get_property inh message (butlast key) \<noteq> JUndefined
             \<longrightarrow> spec_validator_accepts inh fv (get_property inh message (butlast key)))
       else has_property inh message key
              \<and> spec_validator_accepts inh fv (get_property inh message key))
      \<and> spec_fields_accept inh rest message)"
| "spec_validator_accepts inh (Predicate f) v = (f v = Inr True)"
| "spec_validator_accepts inh (Nested schema) v = spec_schema_accepts inh schema v"

text \<open>A schema none of whose predicates raises, on any value.\<close>

fun schema_never_raises :: "(string \<times> field_validator) list \<Rightarrow> bool"
and validator_never_raises :: "field_validator \<Rightarrow> bool"
where
  "schema_never_raises [] = True"
| "schema_never_raises ((key, fv) # rest) = (validator_never_raises fv \<and> schema_never_raises rest)"
| "validator_never_raises (Predicate f) = (\<forall>v e. f v \<noteq> Inl e)"
| "validator_never_raises (Nested schema) = schema_never_raises schema"

text \<open>The three ways a rule can come out on a message, and the entries they leave.\<close>

definition rule_passes :: "jsval \<Rightarrow> 'c \<Rightarrow> string \<times> 'c rule_config \<Rightarrow> bool" where
  "rule_passes message ctx entry = (validator (snd entry) message ctx = Inr True)"

definition required_failure :: "jsval \<Rightarrow> 'c \<Rightarrow> string \<times> 'c rule_config \<Rightarrow> bool" where
  "required_failure message ctx entry =
     (validator (snd entry) message ctx = Inr False \<and> required (snd entry))"

definition optional_failure :: "jsval \<Rightarrow> 'c \<Rightarrow> string \<times> 'c rule_config \<Rightarrow> bool" where
  "optional_failure message ctx entry =
     (validator (snd entry) message ctx = Inr False \<and> \<not> required (snd entry))"

definition error_of :: "jsval \<Rightarrow> 'c \<Rightarrow> string \<times> 'c rule_config \<Rightarrow> error_entry" where
  "error_of message ctx entry =
     (case validator (snd entry) message ctx of
        Inl e \<Rightarrow> rule_raised (fst entry) (snd entry) e
      | Inr b \<Rightarrow> rule_error (fst entry) (snd entry))"

definition warning_of :: "string \<times> 'c rule_config \<Rightarrow> warning_entry" where
  "warning_of entry = rule_warning (fst entry) (snd entry)"

text \<open>The objects of the two examples of the specification.\<close>

definition example_schema :: "(string \<times> field_validator) list" where
  "example_schema =
     [(''id'', Predicate (\<lambda>v. Inr (isNumber v))), (''name'', Predicate (\<lambda>v. Inr (isString v)))]"

definition schema_validator :: "prototypes \<Rightarrow> (string \<times> field_validator) list \<Rightarrow> unit message_validator" where
  "schema_validator inh schema =
     addRule ''matchesSchema'' (\<lambda>message ctx. matchesSchema inh schema message)
       (Some True) (Some ''Message does not match expected schema'') (new_validator None None)"

text \<open>
  Inputs of the examples below: the methods every object inherits from
  \<open>Object.prototype\<close>, a clock that always reads the same instant, and a validator
  with one optional rule.
\<close>

definition object_prototype :: prototypes where
  "object_prototype v k =
     (if v \<noteq> JUndefined \<and> v \<noteq> JNull
         \<and> k \<in> set [''constructor'', ''hasOwnProperty'', ''isPrototypeOf'',
                     ''propertyIsEnumerable'', ''toLocaleString'', ''toString'', ''valueOf'']
      then Some (JFunction k) else None)"

definition fixed_clock :: "nat \<Rightarrow> string" where
  "fixed_clock i = ''2024-01-01T00:00:00.000Z''"

definition advisory_validator :: "unit message_validator" where
  "advisory_validator =
     addRule ''advice'' (\<lambda>message ctx. Inr (isString message)) (Some False) None
       (new_validator None None)"

section \<open>The WebSocket client (client/node/websocket-client.js and .ts)\<close>

subsection \<open>The object and the runtime around it\<close>

text \<open>
  What is not code of the client is a parameter: \<open>JSON.parse\<close> (\<open>None\<close> when it
  raises), \<open>JSON.stringify\<close> of an object given by its entries, the constructor of the
  socket library (\<open>ws_new n url\<close> is the exception of the \<open>n\<close>-th construction, if
  it raises), the method \<open>ws.send\<close> (\<open>ws_send n k data\<close> is the exception that the
  \<open>n\<close>-th call of \<open>send\<close>, on socket \<open>k\<close>, raises synchronously, if any), and the
  prototype chain.
\<close>

record env =
  JSON_parse :: "string \<Rightarrow> jsval option"
  JSON_stringify :: "(string \<times> jsval) list \<Rightarrow> string"
  ws_new :: "nat \<Rightarrow> string \<Rightarrow> string option"
  ws_send :: "nat \<Rightarrow> nat \<Rightarrow> jsval \<Rightarrow> string option"
  inherited :: prototypes

text \<open>
  The message callback in force is the default \<open>() => {}\<close>, a function of the caller
  (known by a tag), or the closure that \<open>sendWithAck\<close> installs: it holds the
  correlation id, the timer, the promise of the call (its \<open>resolve\<close>) and the callback
  it replaced.
\<close>

datatype handler =
    Noop
  | User nat
  | AckInterceptor string nat nat handler

datatype 'a promise = Pending | Resolved 'a | Rejected string

datatype timer_action = AckTimeout nat | Reconnect

text \<open>The \<open>readyState\<close> of a socket, as the WebSocket interface names it.\<close>

datatype socket_state = CONNECTING | OPEN | CLOSING | CLOSED

text \<open>What the caller and the socket library observe of the client.\<close>

datatype observation =
    OnOpen
  | OnClose nat string
  | OnError string
  | OnMessage nat string
  | CloseRequested nat

record client_stats =
  sent :: nat
  received :: nat
  error_count :: nat
  connections :: nat
  disconnections :: nat

text \<open>
  The fields of the class come first. \<open>ws\<close> is the number of the current socket; a
  queue entry is a message with the promise whose \<open>resolve\<close> and \<open>reject\<close> it holds.
  The rest is the runtime: \<open>sockets ! k\<close> is the promise of the \<open>connect\<close> that made
  socket \<open>k\<close>, with the state the socket is in; the three stores hold the promises of \<open>connect\<close>, \<open>send\<close> and
  \<open>sendWithAck\<close>; \<open>awaiting\<close> holds, for each \<open>sendWithAck\<close> suspended at
  \<open>await this.send(payload)\<close>, the promise awaited and what its \<open>catch\<close> block
  needs; \<open>timers\<close> are the pending timeouts (id, delay, action); \<open>wire\<close> lists the
  calls of \<open>ws.send\<close> (socket, data, promise of the callback, exception raised if
  any), \<open>calledBack\<close> the calls whose callback has run, each with the error the
  callback was given, if any; \<open>trace\<close> lists the
  invocations of the caller's callbacks and the requests to close a socket.
\<close>

record client =
  url :: string
  reconnectAttempts :: nat
  maxReconnectAttempts :: nat
  reconnectDelay :: nat
  autoReconnect :: bool
  ws :: "nat option"
  isConnected :: bool
  messageQueue :: "(jsval \<times> nat) list"
  stats :: client_stats
  onMessage :: handler
  sockets :: "(nat \<times> socket_state) list"
  connectPromises :: "unit promise list"
  sendPromises :: "unit promise list"
  ackPromises :: "jsval promise list"
  awaiting :: "(nat \<times> nat \<times> handler \<times> nat) list"
  timers :: "(nat \<times> nat \<times> timer_action) list"
  nextTimer :: nat
  wire :: "(nat \<times> jsval \<times> nat \<times> string option) list"
  calledBack :: "(nat \<times> string option) list"
  trace :: "observation list"

record client_options =
  opt_url :: "string option"
  opt_maxReconnectAttempts :: "nat option"
  opt_reconnectDelay :: "nat option"
  opt_autoReconnect :: "bool option"
  opt_onMessage :: "nat option"

text \<open>
  The constructor (the default address is that of the JavaScript file). \<open>x || d\<close>
  takes the default also when \<open>x\<close> is 0 or the empty string;
  \<open>options.autoReconnect !== false\<close> is false only for \<open>false\<close>.
\<close>

definition new_client :: "client_options \<Rightarrow> client" where
  "new_client options =
     \<lparr>url = (case opt_url options of
               None \<Rightarrow> ''wss://localhost:8787/ws''
             | Some u \<Rightarrow> if u = [] then ''wss://localhost:8787/ws'' else u),
      reconnectAttempts = 0,
      maxReconnectAttempts = (case opt_maxReconnectAttempts options of
               None \<Rightarrow> 5 | Some n \<Rightarrow> if n = 0 then 5 else n),
      reconnectDelay = (case opt_reconnectDelay options of
               None \<Rightarrow> 1000 | Some n \<Rightarrow> if n = 0 then 1000 else n),
      autoReconnect = (opt_autoReconnect options \<noteq> Some False),
      ws = None,
      isConnected = False,
      messageQueue = [],
      stats = \<lparr>sent = 0, received = 0, error_count = 0, connections = 0, disconnections = 0\<rparr>,
      onMessage = (case opt_onMessage options of None \<Rightarrow> Noop | Some tag \<Rightarrow> User tag),
      sockets = [], connectPromises = [], sendPromises = [], ackPromises = [], awaiting = [],
      timers = [], nextTimer = 0, wire = [], calledBack = [], trace = []\<rparr>"

text \<open>
  Settling a promise: \<open>resolve\<close> and \<open>reject\<close> act on a pending promise only.
\<close>

definition promise_state :: "'a promise list \<Rightarrow> nat \<Rightarrow> 'a promise" where
  "promise_state ps p = (if p < length ps then ps ! p else Pending)"

definition settle :: "nat \<Rightarrow> 'a promise \<Rightarrow> 'a promise list \<Rightarrow> 'a promise list" where
  "settle p v ps = (if p < length ps \<and> ps ! p = Pending then ps[p := v] else ps)"

text \<open>
  The state of a socket changes when the socket library opens or closes it, and when
  the client calls \<open>ws.close()\<close>, which starts the closing handshake of a socket that
  is connecting or open.
\<close>

definition readyState :: "client \<Rightarrow> nat \<Rightarrow> socket_state" where
  "readyState c k = snd (sockets c ! k)"

definition set_readyState :: "nat \<Rightarrow> socket_state \<Rightarrow> client \<Rightarrow> client" where
  "set_readyState k st c = c\<lparr>sockets := (sockets c)[k := (fst (sockets c ! k), st)]\<rparr>"

definition ws_close :: "nat \<Rightarrow> client \<Rightarrow> client" where
  "ws_close k c =
     (if k < length (sockets c) \<and> (readyState c k = CONNECTING \<or> readyState c k = OPEN)
      then set_readyState k CLOSING c else c)"

definition setTimeout :: "timer_action \<Rightarrow> nat \<Rightarrow> client \<Rightarrow> nat \<times> client" where
  "setTimeout act delay c =
     (nextTimer c, c\<lparr>timers := timers c @ [(nextTimer c, delay, act)], nextTimer := nextTimer c + 1\<rparr>)"

definition clearTimeout :: "nat \<Rightarrow> client \<Rightarrow> client" where
  "clearTimeout timeoutId c = c\<lparr>timers := filter (\<lambda>t. fst t \<noteq> timeoutId) (timers c)\<rparr>"

subsection \<open>Sending\<close>

text \<open>
  \<open>_sendMessage\<close>. With no socket the read \<open>this.ws.send\<close> raises inside the \<open>try\<close>;
  otherwise \<open>ws.send\<close> raises or takes the data, and calls back later.
\<close>

definition sendMessage :: "env \<Rightarrow> jsval \<Rightarrow> nat \<Rightarrow> client \<Rightarrow> client" where
  "sendMessage env message p c =
     (case ws c of
        None \<Rightarrow>
          c\<lparr>stats := (stats c)\<lparr>error_count := error_count (stats c) + 1\<rparr>,
            sendPromises := settle p (Rejected ''Cannot read properties of null'') (sendPromises c)\<rparr>
      | Some k \<Rightarrow>
          (case ws_send env (length (wire c)) k message of
             Some err \<Rightarrow>
               c\<lparr>wire := wire c @ [(k, message, p, Some err)],
                 stats := (stats c)\<lparr>error_count := error_count (stats c) + 1\<rparr>,
                 sendPromises := settle p (Rejected err) (sendPromises c)\<rparr>
           | None \<Rightarrow> c\<lparr>wire := wire c @ [(k, message, p, None)]\<rparr>))"

text \<open>
  \<open>send(message, options)\<close>, with \<open>queue\<close> for \<open>options.queue\<close> (\<open>None\<close> when it is
  not given). The result is the promise returned and the new state.
\<close>

definition send :: "env \<Rightarrow> jsval \<Rightarrow> bool option \<Rightarrow> client \<Rightarrow> nat \<times> client" where
  "send env message queue c =
     (let p = length (sendPromises c);
          c1 = c\<lparr>sendPromises := sendPromises c @ [Pending]\<rparr>
      in if ws c1 = None \<or> \<not> isConnected c1 then
           (if queue \<noteq> Some False
            then (p, c1\<lparr>messageQueue := messageQueue c1 @ [(message, p)]\<rparr>)
            else (p, c1\<lparr>sendPromises :=
                          settle p (Rejected ''WebSocket is not connected'') (sendPromises c1)\<rparr>))
         else (p, sendMessage env message p c1))"

text \<open>The callback that \<open>_sendMessage\<close> gives to \<open>ws.send\<close>, for the \<open>i\<close>-th call.\<close>

definition sendCallback :: "nat \<Rightarrow> string option \<Rightarrow> client \<Rightarrow> client" where
  "sendCallback i error c =
     (if i < length (wire c) \<and> i \<notin> fst ` set (calledBack c)
         \<and> snd (snd (snd (wire c ! i))) = None then
        (let p = fst (snd (snd (wire c ! i)));
             c1 = c\<lparr>calledBack := calledBack c @ [(i, error)]\<rparr>
         in case error of
              Some err \<Rightarrow>
                c1\<lparr>stats := (stats c1)\<lparr>error_count := error_count (stats c1) + 1\<rparr>,
                   sendPromises := settle p (Rejected err) (sendPromises c1)\<rparr>
            | None \<Rightarrow>
                c1\<lparr>stats := (stats c1)\<lparr>sent := sent (stats c1) + 1\<rparr>,
                   sendPromises := settle p (Resolved ()) (sendPromises c1)\<rparr>)
      else c)"

subsection \<open>Connecting and reconnecting\<close>

text \<open>The loop of the open handler: \<open>shift\<close> the first entry and send it, until none is left.\<close>

function flushQueue :: "env \<Rightarrow> client \<Rightarrow> client" where
  "flushQueue env c =
     (case messageQueue c of
        [] \<Rightarrow> c
      | (message, p) # rest \<Rightarrow> flushQueue env (sendMessage env message p (c\<lparr>messageQueue := rest\<rparr>)))"
  by pat_completeness auto
termination
  by (relation "measure (\<lambda>(env, c). length (messageQueue c))")
     (auto simp: sendMessage_def split: option.splits)

definition connect :: "env \<Rightarrow> client \<Rightarrow> nat \<times> client" where
  "connect env c =
     (let p = length (connectPromises c);
          c1 = c\<lparr>connectPromises := connectPromises c @ [Pending]\<rparr>
      in case ws_new env (length (sockets c1)) (url c1) of
           Some err \<Rightarrow> (p, c1\<lparr>connectPromises := settle p (Rejected err) (connectPromises c1)\<rparr>)
         | None \<Rightarrow>
             (p, c1\<lparr>ws := Some (length (sockets c1)),
                    sockets := sockets c1 @ [(p, CONNECTING)],
                    stats := (stats c1)\<lparr>connections := connections (stats c1) + 1\<rparr>\<rparr>))"

definition attemptReconnect :: "client \<Rightarrow> client" where
  "attemptReconnect c =
     snd (setTimeout Reconnect (reconnectDelay c)
            (c\<lparr>reconnectAttempts := reconnectAttempts c + 1\<rparr>))"

text \<open>The handlers that \<open>connect\<close> registers on socket \<open>k\<close>.\<close>

definition on_open :: "env \<Rightarrow> nat \<Rightarrow> client \<Rightarrow> client" where
  "on_open env k c =
     (let c1 = c\<lparr>isConnected := True, reconnectAttempts := 0\<rparr>;
          c2 = flushQueue env c1;
          c3 = c2\<lparr>trace := trace c2 @ [OnOpen]\<rparr>
      in c3\<lparr>connectPromises := settle (fst (sockets c3 ! k)) (Resolved ()) (connectPromises c3)\<rparr>)"

definition on_close :: "nat \<Rightarrow> string \<Rightarrow> client \<Rightarrow> client" where
  "on_close code reason c =
     (let c1 = c\<lparr>isConnected := False,
                 stats := (stats c)\<lparr>disconnections := disconnections (stats c) + 1\<rparr>\<rparr>;
          c2 = c1\<lparr>trace := trace c1 @ [OnClose code reason]\<rparr>
      in if autoReconnect c2 \<and> reconnectAttempts c2 < maxReconnectAttempts c2
         then attemptReconnect c2 else c2)"

definition on_error :: "nat \<Rightarrow> string \<Rightarrow> client \<Rightarrow> client" where
  "on_error k error c =
     (let c1 = c\<lparr>stats := (stats c)\<lparr>error_count := error_count (stats c) + 1\<rparr>\<rparr>;
          c2 = c1\<lparr>trace := trace c1 @ [OnError error]\<rparr>
      in c2\<lparr>connectPromises :=
              settle (fst (sockets c2 ! k)) (Rejected error) (connectPromises c2)\<rparr>)"

text \<open>
  Calling the message callback. The interceptor of \<open>sendWithAck\<close> parses the data;
  the read of \<open>parsedData.ack\<close> raises on \<open>null\<close>; an exception reaches the \<open>catch\<close>
  block, which calls the original callback. A parsed message that is not the
  acknowledgment falls out of the \<open>if\<close> and the function returns.
\<close>

fun invoke :: "env \<Rightarrow> handler \<Rightarrow> string \<Rightarrow> client \<Rightarrow> client" where
  "invoke env Noop data c = c"
| "invoke env (User tag) data c = c\<lparr>trace := trace c @ [OnMessage tag data]\<rparr>"
| "invoke env (AckInterceptor messageId timeoutId ackPromise originalOnMessage) data c =
     (case JSON_parse env data of
        None \<Rightarrow> invoke env originalOnMessage data c
      | Some parsedData \<Rightarrow>
          if parsedData = JNull \<or> parsedData = JUndefined then invoke env originalOnMessage data c
          else if truthy (get_property (inherited env) parsedData ''ack'')
                  \<and> get_property (inherited env) parsedData ''id'' = JStr messageId
          then (clearTimeout timeoutId c)
                 \<lparr>onMessage := originalOnMessage,
                  ackPromises := settle ackPromise (Resolved parsedData) (ackPromises c)\<rparr>
          else c)"

definition on_message :: "env \<Rightarrow> string \<Rightarrow> client \<Rightarrow> client" where
  "on_message env data c =
     (let c1 = c\<lparr>stats := (stats c)\<lparr>received := received (stats c) + 1\<rparr>\<rparr>
      in invoke env (onMessage c1) data c1)"

definition disconnect :: "client \<Rightarrow> client" where
  "disconnect c =
     (case ws c of
        None \<Rightarrow> c
      | Some k \<Rightarrow> (ws_close k c)\<lparr>trace := trace c @ [CloseRequested k], isConnected := False\<rparr>)"

subsection \<open>Sending with acknowledgment\<close>

text \<open>
  The property name of the \<open>i\<close>-th element of an array or a string: \<open>i\<close> in decimal.
\<close>

definition digit_char :: "nat \<Rightarrow> char" where
  "digit_char d = char_of (of_char CHR ''0'' + d :: nat)"

function index_key :: "nat \<Rightarrow> string" where
  "index_key i =
     (if i div 10 = 0 then [digit_char (i mod 10)]
      else index_key (i div 10) @ [digit_char (i mod 10)])"
  by pat_completeness auto
termination
  by (relation "measure id") auto

text \<open>\<open>{...message}\<close>: the own enumerable properties, in order.\<close>

fun spread :: "jsval \<Rightarrow> (string \<times> jsval) list" where
  "spread (JObj kvs) = kvs"
| "spread (JArr xs) = zip (map index_key [0..<length xs]) xs"
| "spread (JStr s) = zip (map index_key [0..<length s]) (map (\<lambda>ch. JStr [ch]) s)"
| "spread _ = []"

text \<open>
  The payload of \<open>sendWithAck\<close>:
  \<open>typeof message === 'string' ? message : JSON.stringify({ ...message, id: messageId })\<close>.
\<close>

definition ack_object :: "jsval \<Rightarrow> string \<Rightarrow> (string \<times> jsval) list" where
  "ack_object message messageId = js_set ''id'' (JStr messageId) (spread message)"

definition ack_payload :: "env \<Rightarrow> string \<Rightarrow> jsval \<Rightarrow> jsval" where
  "ack_payload env messageId message =
     (case message of
        JStr s \<Rightarrow> message
      | _ \<Rightarrow> JStr (JSON_stringify env (ack_object message messageId)))"

text \<open>
  After the code that an action runs, the continuations of the promises settled by it
  run: for a \<open>sendWithAck\<close> whose \<open>send\<close> was rejected, the \<open>catch\<close> block.
\<close>

fun resume :: "(nat \<times> nat \<times> handler \<times> nat) list \<Rightarrow> client \<Rightarrow> client" where
  "resume [] c = c"
| "resume ((sendPromise, timeoutId, originalOnMessage, ackPromise) # rest) c =
     resume rest
       (case promise_state (sendPromises c) sendPromise of
          Pending \<Rightarrow>
            c\<lparr>awaiting := awaiting c @ [(sendPromise, timeoutId, originalOnMessage, ackPromise)]\<rparr>
        | Resolved u \<Rightarrow> c
        | Rejected error \<Rightarrow>
            (clearTimeout timeoutId c)
              \<lparr>onMessage := originalOnMessage,
               ackPromises := settle ackPromise (Rejected error) (ackPromises c)\<rparr>)"

definition run_microtasks :: "client \<Rightarrow> client" where
  "run_microtasks c = resume (awaiting c) (c\<lparr>awaiting := []\<rparr>)"

text \<open>
  The correlation id, \<open>`msg_${Date.now()}_${Math.random()}`\<close>: \<open>now\<close> is the clock in
  milliseconds, \<open>random\<close> the text of the number that \<open>Math.random()\<close> returned.
\<close>

definition make_messageId :: "nat \<Rightarrow> string \<Rightarrow> string" where
  "make_messageId now random = ''msg_'' @ index_key now @ ''_'' @ random"

text \<open>
  \<open>sendWithAck(message, timeout)\<close>, up to the \<open>await\<close>, called when the clock reads
  \<open>now\<close> and \<open>Math.random()\<close> gives \<open>random\<close>. The result is the promise returned and
  the new state.
\<close>

definition sendWithAck ::
  "env \<Rightarrow> nat \<Rightarrow> string \<Rightarrow> jsval \<Rightarrow> nat \<Rightarrow> client \<Rightarrow> nat \<times> client" where
  "sendWithAck env now random message timeout c =
     (let messageId = make_messageId now random;
          payload = ack_payload env messageId message;
          ackPromise = length (ackPromises c);
          c1 = c\<lparr>ackPromises := ackPromises c @ [Pending]\<rparr>;
          (timeoutId, c2) = setTimeout (AckTimeout ackPromise) timeout c1;
          originalOnMessage = onMessage c2;
          c3 = c2\<lparr>onMessage := AckInterceptor messageId timeoutId ackPromise originalOnMessage\<rparr>;
          (sendPromise, c4) = send env payload None c3
      in (ackPromise,
          c4\<lparr>awaiting := awaiting c4 @ [(sendPromise, timeoutId, originalOnMessage, ackPromise)]\<rparr>))"

text \<open>A timer that fires runs its action once.\<close>

definition timerFires :: "env \<Rightarrow> nat \<Rightarrow> client \<Rightarrow> client" where
  "timerFires env timeoutId c =
     (case find (\<lambda>t. fst t = timeoutId) (timers c) of
        None \<Rightarrow> c
      | Some (i, delay, act) \<Rightarrow>
          (let c1 = clearTimeout timeoutId c
           in case act of
                AckTimeout ackPromise \<Rightarrow>
                  c1\<lparr>ackPromises :=
                       settle ackPromise (Rejected ''Message acknowledgment timeout'') (ackPromises c1)\<rparr>
              | Reconnect \<Rightarrow>
                  if reconnectAttempts c1 \<le> maxReconnectAttempts c1 then snd (connect env c1)
                  else c1))"

subsection \<open>The event loop\<close>

text \<open>
  What can happen to a client: a call of the caller, an event of a socket that exists
  and is in a state to emit it (it opens once, from connecting; it closes once; it
  delivers messages while open or closing), the callback of a call of \<open>ws.send\<close>, a
  timer. Each runs to completion, then the
  continuations run. Time is left out: any pending timer may fire, whatever its delay.
  The callbacks of the caller are recorded in \<open>trace\<close> when they are invoked and do
  not call the client themselves; what the client prints on the console is left out.
\<close>

datatype action =
    Connect
  | Disconnect
  | Send jsval "bool option"
  | SendWithAck nat string jsval nat
  | SocketOpen nat
  | SocketClose nat nat string
  | SocketError nat string
  | SocketMessage nat string
  | SendCallback nat "string option"
  | TimerFires nat

fun handle :: "env \<Rightarrow> action \<Rightarrow> client \<Rightarrow> client" where
  "handle env Connect c = snd (connect env c)"
| "handle env Disconnect c = disconnect c"
| "handle env (Send message queue) c = snd (send env message queue c)"
| "handle env (SendWithAck now random message timeout) c =
     snd (sendWithAck env now random message timeout c)"
| "handle env (SocketOpen k) c =
     (if k < length (sockets c) \<and> readyState c k = CONNECTING
      then on_open env k (set_readyState k OPEN c) else c)"
| "handle env (SocketClose k code reason) c =
     (if k < length (sockets c) \<and> readyState c k \<noteq> CLOSED
      then on_close code reason (set_readyState k CLOSED c) else c)"
| "handle env (SocketError k error) c =
     (if k < length (sockets c) \<and> readyState c k \<noteq> CLOSED then on_error k error c else c)"
| "handle env (SocketMessage k data) c =
     (if k < length (sockets c) \<and> (readyState c k = OPEN \<or> readyState c k = CLOSING)
      then on_message env data c else c)"
| "handle env (SendCallback i error) c = sendCallback i error c"
| "handle env (TimerFires timeoutId) c = timerFires env timeoutId c"

definition step :: "env \<Rightarrow> action \<Rightarrow> client \<Rightarrow> client" where
  "step env a c = run_microtasks (handle env a c)"

definition run :: "env \<Rightarrow> action list \<Rightarrow> client \<Rightarrow> client" where
  "run env as c = fold (step env) as c"

text \<open>\<open>ping(timeout)\<close> sends the reserved payload with acknowledgment (the latency it reports is wall-clock time).\<close>

definition ping :: "env \<Rightarrow> nat \<Rightarrow> string \<Rightarrow> nat \<Rightarrow> client \<Rightarrow> nat \<times> client" where
  "ping env now random timeout c = sendWithAck env now random (JStr ''PING'') timeout c"

subsection \<open>What the specification says of the client, for comparison\<close>

text \<open>
  The bound of the specification on the delay before attempt \<open>n\<close>:
  \<open>baseDelay * 2^(n-1) * 0.5 \<le> delay \<le> min(baseDelay * 2^(n-1), maxDelay)\<close>, the
  lower bound doubled on both sides to stay within the natural numbers.
\<close>

definition spec_backoff_bound :: "nat \<Rightarrow> nat \<Rightarrow> nat \<Rightarrow> nat \<Rightarrow> bool" where
  "spec_backoff_bound baseDelay maxDelay n delay =
     (baseDelay * 2 ^ (n - 1) \<le> 2 * delay \<and> delay \<le> min (baseDelay * 2 ^ (n - 1)) maxDelay)"

text \<open>The delays of the pending reconnection timers, and the close callbacks observed.\<close>

definition reconnect_delays :: "client \<Rightarrow> nat list" where
  "reconnect_delays c = map (\<lambda>t. fst (snd t)) (filter (\<lambda>t. snd (snd t) = Reconnect) (timers c))"

fun is_OnClose :: "observation \<Rightarrow> bool" where
  "is_OnClose (OnClose code reason) = True"
| "is_OnClose _ = False"

fun is_OnMessage :: "observation \<Rightarrow> bool" where
  "is_OnMessage (OnMessage tag data) = True"
| "is_OnMessage _ = False"

text \<open>The socket, data and promise of the calls of \<open>ws.send\<close>, in order.\<close>

definition sends :: "client \<Rightarrow> (nat \<times> jsval \<times> nat) list" where
  "sends c = map (\<lambda>e. (fst e, fst (snd e), fst (snd (snd e)))) (wire c)"

subsection \<open>Inputs of the examples\<close>

text \<open>
  A runtime in which sockets are always created and always take the data, and which
  knows the JSON texts of the examples.
\<close>

definition demo_env :: env where
  \<open>demo_env =
     \<lparr>JSON_parse = map_of
        [(''{"type":"news","id":"other"}'', JObj [(''type'', JStr ''news''), (''id'', JStr ''other'')]),
         (''{"ack":true,"id":"msg_42_0.5"}'',
          JObj [(''ack'', JBool True), (''id'', JStr ''msg_42_0.5'')])],
      JSON_stringify = (\<lambda>obj. if obj = [(''type'', JStr ''chat''), (''id'', JStr ''msg_42_0.5'')]
                               then ''{"type":"chat","id":"msg_42_0.5"}'' else ''{}''),
      ws_new = (\<lambda>n u. None),
      ws_send = (\<lambda>n k d. None),
      inherited = object_prototype\<rparr>\<close>

definition default_options :: client_options where
  "default_options =
     \<lparr>opt_url = None, opt_maxReconnectAttempts = None, opt_reconnectDelay = None,
      opt_autoReconnect = None, opt_onMessage = Some 0\<rparr>"

definition connected_client :: client where
  "connected_client = run demo_env [Connect, SocketOpen 0] (new_client default_options)"

text \<open>
  The connected client after \<open>sendWithAck({type: "chat"}, 5000)\<close>, called when the clock
  reads 42 and \<open>Math.random()\<close> gives 0.5: the id of the call is \<open>msg_42_0.5\<close>.
\<close>

definition awaiting_ack_client :: client where
  "awaiting_ack_client =
     step demo_env (SendWithAck 42 ''0.5'' (JObj [(''type'', JStr ''chat'')]) 5000) connected_client"

text \<open>
  A runtime like \<open>demo_env\<close> in which \<open>ws.send\<close> raises on socket 1, as the socket
  library does on a socket that is still connecting.
\<close>

definition stale_env :: env where
  "stale_env =
     demo_env\<lparr>ws_send := (\<lambda>n k d. if k = 1 then Some ''WebSocket is not open: readyState 0 (CONNECTING)''
                                   else None)\<rparr>"

subsection \<open>The connection and the flag\<close>

text \<open>
  The connection is open when the current socket is. The client is idle when every
  socket it made is closed and no reconnection is pending. A run is disciplined when the
  caller calls \<open>connect()\<close> on an idle client only; then the client has one live socket
  at most, and \<open>single_socket\<close> holds: a socket that is not closed is the current
  one, the flag \<open>isConnected\<close> tells whether the connection is open, and a pending
  reconnection, of which there is one at most, finds every socket closed.
\<close>

definition reconnect_pending :: "client \<Rightarrow> bool" where
  "reconnect_pending c = (\<exists>t\<in>set (timers c). snd (snd t) = Reconnect)"

definition connection_open :: "client \<Rightarrow> bool" where
  "connection_open c =
     (case ws c of None \<Rightarrow> False | Some k \<Rightarrow> k < length (sockets c) \<and> readyState c k = OPEN)"

definition all_closed :: "client \<Rightarrow> bool" where
  "all_closed c = list_all (\<lambda>s. snd s = CLOSED) (sockets c)"

definition idle :: "client \<Rightarrow> bool" where
  "idle c = (all_closed c \<and> \<not> reconnect_pending c)"

fun permitted :: "action \<Rightarrow> client \<Rightarrow> bool" where
  "permitted Connect c = idle c"
| "permitted a c = True"

fun disciplined :: "env \<Rightarrow> action list \<Rightarrow> client \<Rightarrow> bool" where
  "disciplined env [] c = True"
| "disciplined env (a # as) c = (permitted a c \<and> disciplined env as (step env a c))"

definition single_socket :: "client \<Rightarrow> bool" where
  "single_socket c =
     ((\<forall>k<length (sockets c). readyState c k \<noteq> CLOSED \<longrightarrow> ws c = Some k)
      \<and> isConnected c = connection_open c
      \<and> (case ws c of None \<Rightarrow> True | Some k \<Rightarrow> k < length (sockets c))
      \<and> (\<forall>t\<in>set (timers c). \<forall>t'\<in>set (timers c).
            snd (snd t) = Reconnect \<and> snd (snd t') = Reconnect \<longrightarrow> fst t = fst t')
      \<and> (reconnect_pending c \<longrightarrow> all_closed c))"

text \<open>
  A payload waits in the queue with its promise pending; and the actions other than
  the open event of a socket.
\<close>

definition pending_in_queue :: "jsval \<Rightarrow> nat \<Rightarrow> client \<Rightarrow> bool" where
  "pending_in_queue m p c =
     ((m, p) \<in> set (messageQueue c) \<and> promise_state (sendPromises c) p = Pending)"

fun is_SocketOpen :: "action \<Rightarrow> bool" where
  "is_SocketOpen (SocketOpen k) = True"
| "is_SocketOpen _ = False"

subsection \<open>Following one queued send\<close>

text \<open>
  \<open>delivered m p n c\<close>: among the calls of \<open>ws.send\<close> after the first \<open>n\<close>, one took
  the data \<open>m\<close> for the promise \<open>p\<close> without raising, and its callback has run and
  was given no error.
\<close>

definition delivered :: "jsval \<Rightarrow> nat \<Rightarrow> nat \<Rightarrow> client \<Rightarrow> bool" where
  "delivered m p n c =
     (\<exists>i<length (wire c). n \<le> i \<and> (i, None) \<in> set (calledBack c)
        \<and> fst (snd (wire c ! i)) = m \<and> fst (snd (snd (wire c ! i))) = p
        \<and> snd (snd (snd (wire c ! i))) = None)"

text \<open>
  The invariant that follows the promise \<open>p\<close> of a \<open>send\<close> of \<open>m\<close> made when \<open>n\<close>
  calls of \<open>ws.send\<close> had been made: the promise exists; the queue and the later calls
  of \<open>ws.send\<close> hold it only together with \<open>m\<close>, the first \<open>n\<close> calls not at all; and
  if it is resolved, \<open>m\<close> has been delivered.
\<close>

definition tracked :: "jsval \<Rightarrow> nat \<Rightarrow> nat \<Rightarrow> client \<Rightarrow> bool" where
  "tracked m p n c =
     (p < length (sendPromises c) \<and> n \<le> length (wire c)
      \<and> (\<forall>e\<in>set (messageQueue c). snd e = p \<longrightarrow> fst e = m)
      \<and> (\<forall>i<length (wire c). fst (snd (snd (wire c ! i))) = p
             \<longrightarrow> n \<le> i \<and> fst (snd (wire c ! i)) = m)
      \<and> (promise_state (sendPromises c) p = Resolved () \<longrightarrow> delivered m p n c))"

text \<open>Every promise that the queue or a call of \<open>ws.send\<close> holds has been created.\<close>

definition promises_allocated :: "client \<Rightarrow> bool" where
  "promises_allocated c =
     (list_all (\<lambda>e. snd e < length (sendPromises c)) (messageQueue c)
      \<and> list_all (\<lambda>e. fst (snd (snd e)) < length (sendPromises c)) (wire c))"

section \<open>The connection manager (class ConnectionManager, ENVIRONMENT_REQUIREMENTS.md)\<close>

subsection \<open>The object\<close>

text \<open>
  The constructor builds \<open>this.options\<close> from defaults, \<open>x || d\<close> for the numbers and
  \<open>x !== false\<close> for \<open>exponentialBackoff\<close>, and then spreads the argument over them:
  an option that the caller gave replaces the default whatever its value, also 0 and
  \<open>false\<close>. Options are natural numbers and booleans here; the numbers of the
  arithmetic are real numbers, so the rounding of floating point is left out.
\<close>

record manager_args =
  arg_maxReconnectAttempts :: "nat option"
  arg_reconnectDelay :: "nat option"
  arg_exponentialBackoff :: "bool option"
  arg_maxReconnectDelay :: "nat option"
  arg_heartbeatInterval :: "nat option"
  arg_pingTimeout :: "nat option"

record manager_options =
  maxReconnectAttempts_cm :: nat
  reconnectDelay_cm :: nat
  exponentialBackoff :: bool
  maxReconnectDelay :: nat
  heartbeatInterval :: nat
  pingTimeout :: nat

text \<open>\<open>connectionState\<close>: the strings \<open>disconnected\<close>, \<open>connecting\<close>, \<open>connected\<close>, \<open>reconnecting\<close>.\<close>

datatype connection_state = Disconnected | Connecting | Connected | Reconnecting

text \<open>
  What the caller and the socket library observe of the manager: the callbacks
  \<open>onOpen\<close>, \<open>onClose\<close> (with the code of the event), \<open>onReconnect\<close> (with
  \<open>attempt\<close>, \<open>maxAttempts\<close> and \<open>delay\<close>) and \<open>onReconnectFailed\<close> (with \<open>attempts\<close>
  and \<open>maxAttempts\<close>), and the calls \<open>ws.close(code, reason)\<close> with the socket and
  the code.
\<close>

datatype manager_observation =
    M_onOpen
  | M_onClose nat
  | M_onReconnect nat nat nat
  | M_onReconnectFailed nat nat
  | M_close nat nat

text \<open>
  The fields of the class, then the runtime: the state of each socket made, the calls
  of \<open>attemptReconnect\<close> suspended at \<open>await new Promise(resolve => setTimeout(resolve,
  delay))\<close> (a number and the delay), the number of calls of \<open>Math.random\<close> made,
  and the observations. The heartbeat (\<open>startHeartbeat\<close>, \<open>stopHeartbeat\<close>, the fields
  \<open>heartbeatTimer\<close>, \<open>pingTimeoutTimer\<close> and \<open>lastHeartbeat\<close>) is left out: it reads
  \<open>connectionState\<close> and \<open>ws\<close> and assigns to its own three fields only, and the close
  it forces reaches the manager as a close event.
\<close>

record manager =
  options_cm :: manager_options
  connectionState :: connection_state
  reconnectAttempts_cm :: nat
  ws_cm :: "nat option"
  url_cm :: "string option"
  sockets_cm :: "socket_state list"
  waits :: "(nat \<times> nat) list"
  nextWait :: nat
  random_calls :: nat
  trace_cm :: "manager_observation list"

definition new_manager :: "manager_args \<Rightarrow> manager" where
  "new_manager args =
     \<lparr>options_cm =
        \<lparr>maxReconnectAttempts_cm = (case arg_maxReconnectAttempts args of None \<Rightarrow> 5 | Some n \<Rightarrow> n),
         reconnectDelay_cm = (case arg_reconnectDelay args of None \<Rightarrow> 1000 | Some n \<Rightarrow> n),
         exponentialBackoff = (case arg_exponentialBackoff args of None \<Rightarrow> True | Some b \<Rightarrow> b),
         maxReconnectDelay = (case arg_maxReconnectDelay args of None \<Rightarrow> 30000 | Some n \<Rightarrow> n),
         heartbeatInterval = (case arg_heartbeatInterval args of None \<Rightarrow> 30000 | Some n \<Rightarrow> n),
         pingTimeout = (case arg_pingTimeout args of None \<Rightarrow> 10000 | Some n \<Rightarrow> n)\<rparr>,
      connectionState = Disconnected,
      reconnectAttempts_cm = 0,
      ws_cm = None,
      url_cm = None,
      sockets_cm = [], waits = [], nextWait = 0, random_calls = 0, trace_cm = []\<rparr>"

text \<open>
  The runtime of the manager: \<open>Math_random i\<close> is what the \<open>i\<close>-th call of
  \<open>Math.random()\<close> returns, \<open>WebSocket_new n url\<close> the exception of the \<open>n\<close>-th
  construction of a socket, if it raises.
\<close>

record manager_env =
  Math_random :: "nat \<Rightarrow> real"
  WebSocket_new :: "nat \<Rightarrow> string \<Rightarrow> string option"

subsection \<open>Reconnection\<close>

text \<open>
  \<open>calculateReconnectDelay()\<close>, with \<open>random\<close> for what \<open>Math.random()\<close> returns.
  \<open>Math.pow(2, this.reconnectAttempts - 1)\<close> is a power with an integer exponent,
  one half when no attempt has been counted.
\<close>

definition calculateReconnectDelay :: "real \<Rightarrow> manager \<Rightarrow> nat" where
  "calculateReconnectDelay random m =
     (let delay0 = real (reconnectDelay_cm (options_cm m));
          delay1 = (if exponentialBackoff (options_cm m)
                    then real (reconnectDelay_cm (options_cm m))
                           * 2 powi (int (reconnectAttempts_cm m) - 1)
                    else delay0);
          delay2 = min delay1 (real (maxReconnectDelay (options_cm m)));
          delay3 = delay2 * (0.5 + random * 0.5)
      in nat \<lfloor>delay3\<rfloor>)"

definition shouldAttemptReconnect :: "nat \<Rightarrow> manager \<Rightarrow> bool" where
  "shouldAttemptReconnect code m =
     (if code = 1000 \<or> (4000 \<le> code \<and> code < 5000) then False
      else if reconnectAttempts_cm m \<ge> maxReconnectAttempts_cm (options_cm m) then False
      else True)"

text \<open>
  \<open>attemptReconnect()\<close> up to the \<open>await\<close> of the delay: it returns at once while a
  reconnection is under way or no address is known (\<open>!this.url\<close> holds of \<open>null\<close>
  and of the empty string).
\<close>

definition attemptReconnect_cm :: "manager_env \<Rightarrow> manager \<Rightarrow> manager" where
  "attemptReconnect_cm env m =
     (if connectionState m = Reconnecting \<or> url_cm m = None \<or> url_cm m = Some [] then m
      else
        (let m1 = m\<lparr>reconnectAttempts_cm := reconnectAttempts_cm m + 1,
                    connectionState := Reconnecting\<rparr>;
             delay = calculateReconnectDelay (Math_random env (random_calls m1)) m1;
             m2 = m1\<lparr>random_calls := random_calls m1 + 1\<rparr>;
             m3 = m2\<lparr>trace_cm := trace_cm m2 @
                     [M_onReconnect (reconnectAttempts_cm m2)
                        (maxReconnectAttempts_cm (options_cm m2)) delay]\<rparr>
         in m3\<lparr>waits := waits m3 @ [(nextWait m3, delay)], nextWait := nextWait m3 + 1\<rparr>))"

definition handleDisconnection :: "manager_env \<Rightarrow> nat \<Rightarrow> manager \<Rightarrow> manager" where
  "handleDisconnection env code m =
     (if shouldAttemptReconnect code m then attemptReconnect_cm env m else m)"

text \<open>
  \<open>connect(url)\<close>: nothing while connecting or connected; otherwise a socket is made,
  and the promise returned is rejected (the result \<open>Some\<close>) only when the constructor
  raises. The handlers registered on the socket follow.
\<close>

definition connect_cm :: "manager_env \<Rightarrow> string \<Rightarrow> manager \<Rightarrow> string option \<times> manager" where
  "connect_cm env u m =
     (if connectionState m = Connecting \<or> connectionState m = Connected then (None, m)
      else
        (let m1 = m\<lparr>url_cm := Some u, connectionState := Connecting\<rparr>
         in case WebSocket_new env (length (sockets_cm m1)) u of
              Some err \<Rightarrow> (Some err, m1\<lparr>connectionState := Disconnected\<rparr>)
            | None \<Rightarrow>
                (None, m1\<lparr>ws_cm := Some (length (sockets_cm m1)),
                           sockets_cm := sockets_cm m1 @ [CONNECTING]\<rparr>)))"

definition onopen_cm :: "manager \<Rightarrow> manager" where
  "onopen_cm m =
     (let m1 = m\<lparr>connectionState := Connected, reconnectAttempts_cm := 0\<rparr>
      in m1\<lparr>trace_cm := trace_cm m1 @ [M_onOpen]\<rparr>)"

definition onclose_cm :: "manager_env \<Rightarrow> nat \<Rightarrow> manager \<Rightarrow> manager" where
  "onclose_cm env code m =
     (let m1 = m\<lparr>connectionState := Disconnected\<rparr>;
          m2 = handleDisconnection env code m1
      in m2\<lparr>trace_cm := trace_cm m2 @ [M_onClose code]\<rparr>)"

text \<open>
  \<open>attemptReconnect()\<close> after the \<open>await\<close> of the delay. The \<open>catch\<close> block runs when
  the promise of \<open>connect\<close> is rejected.
\<close>

definition attemptReconnect_resume :: "manager_env \<Rightarrow> manager \<Rightarrow> manager" where
  "attemptReconnect_resume env m =
     (if reconnectAttempts_cm m \<le> maxReconnectAttempts_cm (options_cm m) then
        (case connect_cm env (case url_cm m of None \<Rightarrow> [] | Some u \<Rightarrow> u) m of
           (None, m1) \<Rightarrow> m1
         | (Some err, m1) \<Rightarrow> attemptReconnect_cm env m1)
      else m\<lparr>trace_cm := trace_cm m @
                [M_onReconnectFailed (reconnectAttempts_cm m)
                   (maxReconnectAttempts_cm (options_cm m))]\<rparr>)"

text \<open>
  \<open>disconnect()\<close>; \<open>ws.close\<close> starts the closing handshake of a socket that is
  connecting or open.
\<close>

definition disconnect_cm :: "manager \<Rightarrow> manager" where
  "disconnect_cm m =
     (case ws_cm m of
        None \<Rightarrow> m
      | Some k \<Rightarrow>
          m\<lparr>sockets_cm :=
               (if k < length (sockets_cm m) \<and> (sockets_cm m ! k = CONNECTING \<or> sockets_cm m ! k = OPEN)
                then (sockets_cm m)[k := CLOSING] else sockets_cm m),
            trace_cm := trace_cm m @ [M_close k 1000],
            connectionState := Disconnected\<rparr>)"

text \<open>
  What can happen to a manager: a call of the caller, an event of a socket that exists
  and is in a state to emit it, the end of a wait.
\<close>

datatype manager_action =
    M_connect string
  | M_disconnect
  | M_socket_open nat
  | M_socket_close nat nat
  | M_wait_elapsed nat

fun handle_cm :: "manager_env \<Rightarrow> manager_action \<Rightarrow> manager \<Rightarrow> manager" where
  "handle_cm env (M_connect u) m = snd (connect_cm env u m)"
| "handle_cm env M_disconnect m = disconnect_cm m"
| "handle_cm env (M_socket_open k) m =
     (if k < length (sockets_cm m) \<and> sockets_cm m ! k = CONNECTING
      then onopen_cm (m\<lparr>sockets_cm := (sockets_cm m)[k := OPEN]\<rparr>) else m)"
| "handle_cm env (M_socket_close k code) m =
     (if k < length (sockets_cm m) \<and> sockets_cm m ! k \<noteq> CLOSED
      then onclose_cm env code (m\<lparr>sockets_cm := (sockets_cm m)[k := CLOSED]\<rparr>) else m)"
| "handle_cm env (M_wait_elapsed i) m =
     (case find (\<lambda>w. fst w = i) (waits m) of
        None \<Rightarrow> m
      | Some w \<Rightarrow> attemptReconnect_resume env (m\<lparr>waits := filter (\<lambda>w. fst w \<noteq> i) (waits m)\<rparr>))"

definition run_cm :: "manager_env \<Rightarrow> manager_action list \<Rightarrow> manager \<Rightarrow> manager" where
  "run_cm env as m = fold (handle_cm env) as m"

subsection \<open>The delay before the jitter\<close>

text \<open>
  \<open>backoff_cap opts n\<close> is the delay of attempt \<open>n\<close> before the random factor is
  applied: the base delay doubled \<open>n - 1\<close> times (the base delay itself when
  \<open>exponentialBackoff\<close> is off), capped at \<open>maxReconnectDelay\<close>.
\<close>

definition backoff_cap :: "manager_options \<Rightarrow> nat \<Rightarrow> nat" where
  "backoff_cap opts n =
     min (if exponentialBackoff opts then reconnectDelay_cm opts * 2 ^ (n - 1)
          else reconnectDelay_cm opts)
         (maxReconnectDelay opts)"

text \<open>The delay of the wait that a call of \<open>attemptReconnect\<close> starts.\<close>

definition scheduled_delay :: "manager_env \<Rightarrow> manager \<Rightarrow> nat" where
  "scheduled_delay env m = snd (last (waits (attemptReconnect_cm env m)))"

subsection \<open>Inputs of the examples\<close>

text \<open>
  A runtime in which sockets are always created and \<open>Math.random()\<close> always returns
  one half; a manager with the default options, and one allowed ten attempts.
\<close>

definition steady_env :: manager_env where
  "steady_env = \<lparr>Math_random = (\<lambda>i. 1 / 2), WebSocket_new = (\<lambda>n u. None)\<rparr>"

definition default_args :: manager_args where
  "default_args =
     \<lparr>arg_maxReconnectAttempts = None, arg_reconnectDelay = None, arg_exponentialBackoff = None,
      arg_maxReconnectDelay = None, arg_heartbeatInterval = None, arg_pingTimeout = None\<rparr>"

definition ten_attempts :: manager_args where
  "ten_attempts = default_args\<lparr>arg_maxReconnectAttempts := Some 10\<rparr>"

text \<open>Six abnormal closures in a row, each followed by the end of the wait it started.\<close>

definition six_failures :: "manager_action list" where
  "six_failures =
     [M_connect ''wss://example.com/ws'',
      M_socket_close 0 1006, M_wait_elapsed 0,
      M_socket_close 1 1006, M_wait_elapsed 1,
      M_socket_close 2 1006, M_wait_elapsed 2,
      M_socket_close 3 1006, M_wait_elapsed 3,
      M_socket_close 4 1006, M_wait_elapsed 4,
      M_socket_close 5 1006, M_wait_elapsed 5]"
section \<open>Properties of the message validator\<close>

subsection \<open>One rule, then the loop\<close>

lemma rule_isValid:
  "isValid (fst (validate_rule clock i entry message ctx acc))
     = (isValid (fst acc) \<and> rule_passes message ctx entry)"
  by (cases entry; cases acc)
     (auto simp: rule_passes_def Let_def split: sum.splits bool.splits)

lemma rule_warnings:
  "warnings (fst (validate_rule clock i entry message ctx acc))
     = warnings (fst acc) @ (if optional_failure message ctx entry then [warning_of entry] else [])"
  by (cases entry; cases acc)
     (auto simp: optional_failure_def warning_of_def Let_def split: sum.splits bool.splits)

lemma rule_errors:
  "errors (fst (validate_rule clock i entry message ctx acc))
     = errors (fst acc) @ (if rule_passes message ctx entry then [] else [error_of message ctx entry])"
  by (cases entry; cases acc)
     (auto simp: rule_passes_def error_of_def Let_def split: sum.splits bool.splits)

lemma rule_context:
  "resultContext (fst (validate_rule clock i entry message ctx acc)) = resultContext (fst acc)"
  by (cases entry; cases acc)
     (auto simp: Let_def split: sum.splits bool.splits)

lemma rule_failed:
  "failed (snd (validate_rule clock i entry message ctx acc))
     = failed (snd acc) + (if required_failure message ctx entry then 1 else 0)"
  by (cases entry; cases acc)
     (auto simp: required_failure_def Let_def split: sum.splits bool.splits)

lemma rule_validated:
  "validated (snd (validate_rule clock i entry message ctx acc)) = validated (snd acc)"
  by (cases entry; cases acc)
     (auto simp: Let_def split: sum.splits bool.splits)

lemma rule_passed:
  "passed (snd (validate_rule clock i entry message ctx acc)) = passed (snd acc)"
  by (cases entry; cases acc)
     (auto simp: Let_def split: sum.splits bool.splits)

lemma rule_errorLog:
  "errorLog (snd (validate_rule clock i entry message ctx acc))
     = errorLog (snd acc)
       @ (if required_failure message ctx entry then [rule_log (fst entry) (snd entry) (clock i)] else [])"
  by (cases entry; cases acc)
     (auto simp: required_failure_def Let_def split: sum.splits bool.splits)

lemmas rule_step = rule_isValid rule_warnings rule_errors rule_context rule_failed
  rule_validated rule_passed rule_errorLog

lemma loop_isValid:
  "isValid (fst (validate_loop clock i rules message ctx acc))
     = (isValid (fst acc) \<and> list_all (rule_passes message ctx) rules)"
  by (induction rules arbitrary: i acc) (auto simp: rule_step simp del: validate_rule.simps)

lemma loop_warnings:
  "warnings (fst (validate_loop clock i rules message ctx acc))
     = warnings (fst acc) @ map warning_of (filter (optional_failure message ctx) rules)"
  by (induction rules arbitrary: i acc) (auto simp: rule_step simp del: validate_rule.simps)

lemma loop_errors:
  "errors (fst (validate_loop clock i rules message ctx acc))
     = errors (fst acc)
       @ map (error_of message ctx) (filter (\<lambda>e. \<not> rule_passes message ctx e) rules)"
  by (induction rules arbitrary: i acc) (auto simp: rule_step simp del: validate_rule.simps)

lemma loop_context:
  "resultContext (fst (validate_loop clock i rules message ctx acc)) = resultContext (fst acc)"
  by (induction rules arbitrary: i acc) (auto simp: rule_step simp del: validate_rule.simps)

lemma loop_failed:
  "failed (snd (validate_loop clock i rules message ctx acc))
     = failed (snd acc) + length (filter (required_failure message ctx) rules)"
  by (induction rules arbitrary: i acc) (auto simp: rule_step simp del: validate_rule.simps)

lemma loop_validated:
  "validated (snd (validate_loop clock i rules message ctx acc)) = validated (snd acc)"
  by (induction rules arbitrary: i acc) (auto simp: rule_step simp del: validate_rule.simps)

lemma loop_passed:
  "passed (snd (validate_loop clock i rules message ctx acc)) = passed (snd acc)"
  by (induction rules arbitrary: i acc) (auto simp: rule_step simp del: validate_rule.simps)

lemma loop_errorLog:
  "prefix (errorLog (snd acc)) (errorLog (snd (validate_loop clock i rules message ctx acc)))"
proof (induction rules arbitrary: i acc)
  case Nil
  show ?case by simp
next
  case (Cons entry rest)
  have "prefix (errorLog (snd acc)) (errorLog (snd (validate_rule clock i entry message ctx acc)))"
    by (simp add: rule_errorLog del: validate_rule.simps)
  also have "prefix \<dots> (errorLog (snd (validate_loop clock (Suc i) rest message ctx
                 (validate_rule clock i entry message ctx acc))))"
    by (rule Cons.IH)
  finally show ?case by simp
qed

lemma validate_fst:
  "fst (validate clock mv message ctx)
     = fst (validate_loop clock 0 (validationRules mv) message ctx
         (\<lparr>isValid = True, errors = [], warnings = [], resultContext = ctx\<rparr>, vstats mv))"
  by (simp add: validate_def Let_def split: prod.splits)

lemma validate_stats:
  "vstats (snd (validate clock mv message ctx))
     = (let st = snd (validate_loop clock 0 (validationRules mv) message ctx
                  (\<lparr>isValid = True, errors = [], warnings = [], resultContext = ctx\<rparr>, vstats mv));
            st1 = st\<lparr>validated := validated st + 1\<rparr>
        in if isValid (fst (validate clock mv message ctx)) then st1\<lparr>passed := passed st1 + 1\<rparr> else st1)"
  by (simp add: validate_def Let_def split: prod.splits)


text \<open>
  C3, as amended. The result is valid exactly when every rule returns true, which is
  exactly when \<open>errors\<close> is empty. A rule that returns false leaves an entry in
  \<open>errors\<close> whether or not it is required (so does a rule that raises); a failing
  optional rule is in \<open>warnings\<close> as well, and only a failing required rule adds one
  to the failure counter.
\<close>

theorem validate_verdict:
  "isValid (fst (validate clock mv message ctx))
     = list_all (rule_passes message ctx) (validationRules mv)
   \<and> isValid (fst (validate clock mv message ctx))
     = (errors (fst (validate clock mv message ctx)) = [])
   \<and> warnings (fst (validate clock mv message ctx))
     = map warning_of (filter (optional_failure message ctx) (validationRules mv))
   \<and> errors (fst (validate clock mv message ctx))
     = map (error_of message ctx) (filter (\<lambda>e. \<not> rule_passes message ctx e) (validationRules mv))
   \<and> failed (vstats (snd (validate clock mv message ctx)))
     = failed (vstats mv) + length (filter (required_failure message ctx) (validationRules mv))"
  by (simp add: validate_fst validate_stats loop_isValid loop_warnings loop_errors loop_failed Let_def
        filter_empty_conv list_all_iff)

lemma advisory_rules:
  "validationRules advisory_validator
     = [(''advice'', \<lparr>validator = (\<lambda>message ctx. Inr (isString message)), required = False,
                      errorMessage = ''Validation failed for rule: advice''\<rparr>)]"
  by (simp add: advisory_validator_def addRule_def new_validator_def js_set_def array_index_def
        digit_val_def default_errorMessage_def)

lemma advisory_stats: "vstats advisory_validator = initial_stats"
  by (simp add: advisory_validator_def addRule_def new_validator_def)

text \<open>
  C3 as stated fails: the validator whose only rule is optional, on the number 5, which
  that rule rejects. No required rule fails, the failure is among the warnings and the
  failure counter stays at 0, yet the result is invalid.
\<close>

theorem optional_rule_failure_invalidates:
  "list_all (optional_failure (JNum 5) ()) (validationRules advisory_validator)
   \<and> filter (required_failure (JNum 5) ()) (validationRules advisory_validator) = []
   \<and> warnings (fst (validate fixed_clock advisory_validator (JNum 5) ()))
       = [\<lparr>warn_rule = ''advice'', warn_message = ''Validation failed for rule: advice''\<rparr>]
   \<and> failed (vstats (snd (validate fixed_clock advisory_validator (JNum 5) ()))) = 0
   \<and> \<not> isValid (fst (validate fixed_clock advisory_validator (JNum 5) ()))"
  by (simp add: validate_def advisory_rules advisory_stats optional_failure_def
        required_failure_def isString_def rule_error_def rule_warning_def initial_stats_def Let_def)

subsection \<open>The counters\<close>

lemma validate_counters:
  "validated (vstats (snd (validate clock mv message ctx))) = validated (vstats mv) + 1
   \<and> passed (vstats (snd (validate clock mv message ctx)))
       = passed (vstats mv) + (if isValid (fst (validate clock mv message ctx)) then 1 else 0)
   \<and> failed (vstats mv) \<le> failed (vstats (snd (validate clock mv message ctx)))
   \<and> prefix (errorLog (vstats mv)) (errorLog (vstats (snd (validate clock mv message ctx))))"
  using loop_errorLog [of "(\<lparr>isValid = True, errors = [], warnings = [], resultContext = ctx\<rparr>, vstats mv)" clock 0 "validationRules mv" message ctx]
  by (simp add: validate_stats loop_validated loop_passed loop_failed Let_def)

lemma validate_grows: "stats_grow (vstats mv) (vstats (snd (validate clock mv message ctx)))"
  using validate_counters [of clock mv message ctx] by (simp add: stats_grow_def)

lemma stats_grow_refl: "stats_grow st st"
  by (simp add: stats_grow_def)

lemma stats_grow_trans: "stats_grow a b \<Longrightarrow> stats_grow b c \<Longrightarrow> stats_grow a c"
  by (auto simp: stats_grow_def intro: prefix_order.trans)

lemma validateWithMiddleware_grows:
  "stats_grow (vstats mv) (vstats (snd (validateWithMiddleware clock mv message ctx)))"
  by (simp add: validateWithMiddleware_def validate_grows stats_grow_refl split: option.splits sum.splits)

lemma apply_op_stats:
  "if is_reset op then vstats (apply_op op mv) = initial_stats
   else stats_grow (vstats mv) (vstats (apply_op op mv))"
  by (cases op)
     (simp_all add: addRule_def addHandler_def useValidationMiddleware_def resetStats_def
        initial_stats_def validate_grows validateWithMiddleware_grows stats_grow_refl)

lemma fold_ops_grow:
  "list_all (\<lambda>op. \<not> is_reset op) ops \<Longrightarrow> stats_grow (vstats mv) (vstats (fold apply_op ops mv))"
proof (induction ops arbitrary: mv)
  case Nil
  show ?case by (simp add: stats_grow_refl)
next
  case (Cons op ops)
  have "stats_grow (vstats mv) (vstats (apply_op op mv))"
    using Cons.prems apply_op_stats [of op mv] by simp
  moreover have "stats_grow (vstats (apply_op op mv)) (vstats (fold apply_op ops (apply_op op mv)))"
    using Cons.prems by (intro Cons.IH) simp
  ultimately show ?case
    by (auto intro: stats_grow_trans)
qed

text \<open>
  C10. A call of \<open>validate\<close> adds one to \<open>validated\<close>, and one to \<open>passed\<close> exactly
  when the result is valid. Of the operations on a validator, \<open>resetStats\<close> returns the
  statistics to zero and the empty log, and every other one leaves each counter at least
  as large and the log an extension of what it was.
\<close>

theorem validator_counters:
  "validated (vstats (snd (validate clock mv message ctx))) = validated (vstats mv) + 1
   \<and> passed (vstats (snd (validate clock mv message ctx)))
       = passed (vstats mv) + (if isValid (fst (validate clock mv message ctx)) then 1 else 0)
   \<and> (if is_reset op then vstats (apply_op op mv) = initial_stats
       else stats_grow (vstats mv) (vstats (apply_op op mv)))"
  using validate_counters [of clock mv message ctx] apply_op_stats [of op mv] by simp

subsection \<open>The schema validator\<close>

lemma matches_accepts:
  "(matchesSchema inh schema message = Inr True) = spec_schema_accepts inh schema message"
  "(schema_entries inh schema message = Inr True) = spec_fields_accept inh schema message"
  "(apply_validator inh fv v = Inr True) = spec_validator_accepts inh fv v"
  by (induction inh schema message and inh schema message and inh fv v
        rule: matchesSchema_schema_entries_apply_validator.induct)
     (auto simp: Let_def split: sum.splits bool.splits)

lemma matches_returns:
  "schema_never_raises schema \<Longrightarrow> matchesSchema inh schema message \<noteq> Inl e"
  "schema_never_raises schema \<Longrightarrow> schema_entries inh schema message \<noteq> Inl e"
  "validator_never_raises fv \<Longrightarrow> apply_validator inh fv v \<noteq> Inl e"
  by (induction inh schema message and inh schema message and inh fv v
        rule: matchesSchema_schema_entries_apply_validator.induct)
     (auto simp: Let_def split: sum.split bool.split)

lemma matches_value:
  assumes "schema_never_raises schema"
  shows "matchesSchema inh schema message = Inr (spec_schema_accepts inh schema message)"
proof (cases "matchesSchema inh schema message")
  case (Inl e)
  with matches_returns(1) [OF assms, of inh message e] show ?thesis by simp
next
  case (Inr b)
  then have "b = spec_schema_accepts inh schema message"
    using matches_accepts(1) [of inh schema message] by auto
  with Inr show ?thesis by simp
qed

lemma example_rules:
  "validationRules (schema_validator inh schema)
     = [(''matchesSchema'',
         \<lparr>validator = (\<lambda>message ctx. matchesSchema inh schema message), required = True,
          errorMessage = ''Message does not match expected schema''\<rparr>)]"
  by (simp add: schema_validator_def addRule_def new_validator_def js_set_def array_index_def digit_val_def)

lemma example_valid:
  "matchesSchema inh example_schema (JObj [(''id'', JNum 1), (''name'', JStr ''a'')]) = Inr True"
  by (simp add: example_schema_def endsWith_qmark_def has_property_def get_property_def
        isNumber_def isString_def)

lemma example_invalid:
  "matchesSchema inh example_schema (JObj [(''id'', JStr ''x'')]) = Inr False"
  by (simp add: example_schema_def endsWith_qmark_def has_property_def get_property_def
        isNumber_def isString_def)


lemma example_first_valid:
  "isValid (fst (validate clock (schema_validator inh example_schema)
                (JObj [(''id'', JNum 1), (''name'', JStr ''a'')]) ()))"
  by (simp add: validate_def example_rules example_valid del: matchesSchema.simps)

lemma example_second_invalid:
  "\<not> isValid (fst (validate clock (schema_validator inh example_schema)
                (JObj [(''id'', JStr ''x'')]) ()))
   \<and> map err_rule (errors (fst (validate clock (schema_validator inh example_schema)
                (JObj [(''id'', JStr ''x'')]) ()))) = [''matchesSchema'']"
  by (simp add: validate_def example_rules example_invalid rule_error_def del: matchesSchema.simps)

text \<open>
  C8 as stated fails on arrays: an array is not a structured non-array object (the
  rule \<open>isObject\<close> rejects it), and the schema validator accepts the empty array
  against the empty schema, as does \<open>validate\<close> with that schema as its only rule.
\<close>

theorem matchesSchema_accepts_array:
  "\<not> isObject (JArr [])
   \<and> matchesSchema object_prototype [] (JArr []) = Inr True
   \<and> isValid (fst (validate fixed_clock (schema_validator object_prototype []) (JArr []) ()))"
  by (simp add: isObject_def validate_def example_rules)

text \<open>
  C8, as amended. The schema validator returns true exactly when the message has type
  object and is not null (an array qualifies), every declared key without the suffix
  \<open>?\<close> is a property of the message whose value passes its validator, and every key
  with the suffix that is present with a value other than \<open>undefined\<close> has a value
  that passes; when no predicate of the schema raises it returns false in every other
  case. The two examples of the specification come out as it says, with
  \<open>matchesSchema\<close> as the only rule of the validator.
\<close>

theorem matchesSchema_characterised:
  "(matchesSchema inh schema message = Inr True) = spec_schema_accepts inh schema message
   \<and> (schema_never_raises schema
        \<longrightarrow> matchesSchema inh schema message = Inr (spec_schema_accepts inh schema message))
   \<and> isValid (fst (validate clock (schema_validator inh example_schema)
                (JObj [(''id'', JNum 1), (''name'', JStr ''a'')]) ()))
   \<and> \<not> isValid (fst (validate clock (schema_validator inh example_schema)
                (JObj [(''id'', JStr ''x'')]) ()))
   \<and> map err_rule (errors (fst (validate clock (schema_validator inh example_schema)
                (JObj [(''id'', JStr ''x'')]) ()))) = [''matchesSchema'']"
  using matches_accepts(1) [of inh schema message] matches_value [of schema inh message]
    example_first_valid [of clock inh] example_second_invalid [of clock inh]
  by blast

theorem matchesSchema_characterised_witness:
  "schema_never_raises
     [(''id'', Predicate (\<lambda>v. Inr (isNumber v))), (''tag?'', Predicate (\<lambda>v. Inr (isString v)))]
   \<and> has_property object_prototype (JObj [(''id'', JNum 1), (''tag'', JStr ''t'')]) (butlast ''tag?'')
   \<and> get_property object_prototype (JObj [(''id'', JNum 1), (''tag'', JStr ''t'')]) (butlast ''tag?'')
       \<noteq> JUndefined
   \<and> matchesSchema object_prototype
       [(''id'', Predicate (\<lambda>v. Inr (isNumber v))), (''tag?'', Predicate (\<lambda>v. Inr (isString v)))]
       (JObj [(''id'', JNum 1), (''tag'', JStr ''t'')]) = Inr True
   \<and> spec_schema_accepts object_prototype
       [(''id'', Predicate (\<lambda>v. Inr (isNumber v))), (''tag?'', Predicate (\<lambda>v. Inr (isString v)))]
       (JObj [(''id'', JNum 1), (''tag'', JStr ''t'')])"
  using matchesSchema_characterised
    [of object_prototype
        "[(''id'', Predicate (\<lambda>v. Inr (isNumber v))), (''tag?'', Predicate (\<lambda>v. Inr (isString v)))]"
        "JObj [(''id'', JNum 1), (''tag'', JStr ''t'')]" fixed_clock]
  by (simp add: has_property_def get_property_def endsWith_qmark_def isNumber_def isString_def
        object_prototype_def)

section \<open>Properties of the client\<close>

subsection \<open>Unfolding the loops\<close>

declare flushQueue.simps [simp del]
declare index_key.simps [simp del]

lemma flushQueue_Nil: "messageQueue c = [] \<Longrightarrow> flushQueue env c = c"
  by (subst flushQueue.simps) simp

lemma flushQueue_Cons:
  "messageQueue c = (message, p) # rest
   \<Longrightarrow> flushQueue env c = flushQueue env (sendMessage env message p (c\<lparr>messageQueue := rest\<rparr>))"
  by (subst flushQueue.simps) simp

lemmas client_defs = step_def run_def connect_def on_open_def on_close_def on_error_def
  on_message_def disconnect_def send_def sendMessage_def sendCallback_def sendWithAck_def
  timerFires_def run_microtasks_def attemptReconnect_def setTimeout_def clearTimeout_def
  settle_def promise_state_def new_client_def default_options_def readyState_def
  set_readyState_def ws_close_def

subsection \<open>What the continuations and the message callback leave alone\<close>

lemma set_readyState_frame [simp]:
  "url (set_readyState k st c) = url c"
  "reconnectAttempts (set_readyState k st c) = reconnectAttempts c"
  "maxReconnectAttempts (set_readyState k st c) = maxReconnectAttempts c"
  "reconnectDelay (set_readyState k st c) = reconnectDelay c"
  "autoReconnect (set_readyState k st c) = autoReconnect c"
  "ws (set_readyState k st c) = ws c"
  "isConnected (set_readyState k st c) = isConnected c"
  "messageQueue (set_readyState k st c) = messageQueue c"
  "stats (set_readyState k st c) = stats c"
  "onMessage (set_readyState k st c) = onMessage c"
  "connectPromises (set_readyState k st c) = connectPromises c"
  "sendPromises (set_readyState k st c) = sendPromises c"
  "ackPromises (set_readyState k st c) = ackPromises c"
  "awaiting (set_readyState k st c) = awaiting c"
  "timers (set_readyState k st c) = timers c"
  "nextTimer (set_readyState k st c) = nextTimer c"
  "wire (set_readyState k st c) = wire c"
  "calledBack (set_readyState k st c) = calledBack c"
  "trace (set_readyState k st c) = trace c"
  "length (sockets (set_readyState k st c)) = length (sockets c)"
  by (simp_all add: set_readyState_def)

lemma ws_close_frame [simp]:
  "url (ws_close k c) = url c"
  "reconnectAttempts (ws_close k c) = reconnectAttempts c"
  "maxReconnectAttempts (ws_close k c) = maxReconnectAttempts c"
  "reconnectDelay (ws_close k c) = reconnectDelay c"
  "autoReconnect (ws_close k c) = autoReconnect c"
  "ws (ws_close k c) = ws c"
  "isConnected (ws_close k c) = isConnected c"
  "messageQueue (ws_close k c) = messageQueue c"
  "stats (ws_close k c) = stats c"
  "onMessage (ws_close k c) = onMessage c"
  "connectPromises (ws_close k c) = connectPromises c"
  "sendPromises (ws_close k c) = sendPromises c"
  "ackPromises (ws_close k c) = ackPromises c"
  "awaiting (ws_close k c) = awaiting c"
  "timers (ws_close k c) = timers c"
  "nextTimer (ws_close k c) = nextTimer c"
  "wire (ws_close k c) = wire c"
  "calledBack (ws_close k c) = calledBack c"
  "trace (ws_close k c) = trace c"
  "length (sockets (ws_close k c)) = length (sockets c)"
  by (simp_all add: ws_close_def)

lemma resume_frame:
  "wire (resume xs c) = wire c \<and> messageQueue (resume xs c) = messageQueue c
   \<and> sendPromises (resume xs c) = sendPromises c \<and> calledBack (resume xs c) = calledBack c
   \<and> ws (resume xs c) = ws c \<and> isConnected (resume xs c) = isConnected c
   \<and> sockets (resume xs c) = sockets c \<and> url (resume xs c) = url c
   \<and> reconnectDelay (resume xs c) = reconnectDelay c
   \<and> reconnectAttempts (resume xs c) = reconnectAttempts c
   \<and> maxReconnectAttempts (resume xs c) = maxReconnectAttempts c
   \<and> autoReconnect (resume xs c) = autoReconnect c
   \<and> stats (resume xs c) = stats c \<and> trace (resume xs c) = trace c
   \<and> connectPromises (resume xs c) = connectPromises c
   \<and> nextTimer (resume xs c) = nextTimer c"
  by (induction xs c rule: resume.induct) (simp_all add: clearTimeout_def split: promise.split)

lemma run_microtasks_frame:
  "wire (run_microtasks c) = wire c \<and> messageQueue (run_microtasks c) = messageQueue c
   \<and> sendPromises (run_microtasks c) = sendPromises c \<and> calledBack (run_microtasks c) = calledBack c
   \<and> ws (run_microtasks c) = ws c \<and> isConnected (run_microtasks c) = isConnected c
   \<and> sockets (run_microtasks c) = sockets c \<and> url (run_microtasks c) = url c
   \<and> reconnectDelay (run_microtasks c) = reconnectDelay c
   \<and> reconnectAttempts (run_microtasks c) = reconnectAttempts c
   \<and> maxReconnectAttempts (run_microtasks c) = maxReconnectAttempts c
   \<and> autoReconnect (run_microtasks c) = autoReconnect c
   \<and> stats (run_microtasks c) = stats c \<and> trace (run_microtasks c) = trace c
   \<and> connectPromises (run_microtasks c) = connectPromises c
   \<and> nextTimer (run_microtasks c) = nextTimer c"
  using resume_frame [of "awaiting c" "c\<lparr>awaiting := []\<rparr>"] by (simp add: run_microtasks_def)

lemma invoke_frame:
  "wire (invoke env h data c) = wire c \<and> messageQueue (invoke env h data c) = messageQueue c
   \<and> sendPromises (invoke env h data c) = sendPromises c
   \<and> calledBack (invoke env h data c) = calledBack c
   \<and> ws (invoke env h data c) = ws c \<and> isConnected (invoke env h data c) = isConnected c
   \<and> sockets (invoke env h data c) = sockets c \<and> url (invoke env h data c) = url c
   \<and> reconnectDelay (invoke env h data c) = reconnectDelay c
   \<and> reconnectAttempts (invoke env h data c) = reconnectAttempts c
   \<and> maxReconnectAttempts (invoke env h data c) = maxReconnectAttempts c
   \<and> autoReconnect (invoke env h data c) = autoReconnect c
   \<and> stats (invoke env h data c) = stats c
   \<and> connectPromises (invoke env h data c) = connectPromises c
   \<and> nextTimer (invoke env h data c) = nextTimer c
   \<and> awaiting (invoke env h data c) = awaiting c"
  by (induction h arbitrary: c) (simp_all add: clearTimeout_def split: option.split)

lemma sendMessage_frame:
  "messageQueue (sendMessage env m p c) = messageQueue c \<and> timers (sendMessage env m p c) = timers c
   \<and> ws (sendMessage env m p c) = ws c \<and> isConnected (sendMessage env m p c) = isConnected c
   \<and> reconnectDelay (sendMessage env m p c) = reconnectDelay c
   \<and> reconnectAttempts (sendMessage env m p c) = reconnectAttempts c
   \<and> sockets (sendMessage env m p c) = sockets c
   \<and> trace (sendMessage env m p c) = trace c
   \<and> calledBack (sendMessage env m p c) = calledBack c
   \<and> length (sendPromises (sendMessage env m p c)) = length (sendPromises c)
   \<and> onMessage (sendMessage env m p c) = onMessage c
   \<and> maxReconnectAttempts (sendMessage env m p c) = maxReconnectAttempts c
   \<and> autoReconnect (sendMessage env m p c) = autoReconnect c
   \<and> url (sendMessage env m p c) = url c
   \<and> nextTimer (sendMessage env m p c) = nextTimer c
   \<and> awaiting (sendMessage env m p c) = awaiting c
   \<and> ackPromises (sendMessage env m p c) = ackPromises c
   \<and> connectPromises (sendMessage env m p c) = connectPromises c"
  by (simp add: sendMessage_def settle_def split: option.split)

lemma flushQueue_frame:
  "timers (flushQueue env c) = timers c \<and> ws (flushQueue env c) = ws c
   \<and> isConnected (flushQueue env c) = isConnected c
   \<and> reconnectDelay (flushQueue env c) = reconnectDelay c
   \<and> reconnectAttempts (flushQueue env c) = reconnectAttempts c
   \<and> sockets (flushQueue env c) = sockets c
   \<and> trace (flushQueue env c) = trace c
   \<and> calledBack (flushQueue env c) = calledBack c
   \<and> length (sendPromises (flushQueue env c)) = length (sendPromises c)
   \<and> onMessage (flushQueue env c) = onMessage c
   \<and> maxReconnectAttempts (flushQueue env c) = maxReconnectAttempts c
   \<and> autoReconnect (flushQueue env c) = autoReconnect c
   \<and> url (flushQueue env c) = url c
   \<and> nextTimer (flushQueue env c) = nextTimer c
   \<and> awaiting (flushQueue env c) = awaiting c
   \<and> ackPromises (flushQueue env c) = ackPromises c
   \<and> connectPromises (flushQueue env c) = connectPromises c
   \<and> messageQueue (flushQueue env c) = []"
proof (induction env c rule: flushQueue.induct)
  case (1 env c)
  show ?case
  proof (cases "messageQueue c")
    case Nil
    then show ?thesis by (simp add: flushQueue_Nil)
  next
    case (Cons entry rest)
    obtain message p where entry: "entry = (message, p)" by (cases entry)
    have q: "messageQueue c = (message, p) # rest" using Cons entry by simp
    show ?thesis
      using "1.IH" [OF q refl] sendMessage_frame [of env message p "c\<lparr>messageQueue := rest\<rparr>"]
      by (simp add: flushQueue_Cons [OF q])
  qed
qed

subsection \<open>The queue is flushed in order\<close>





lemma run_Cons: "run env (a # as) c = run env as (step env a c)"
  by (simp add: run_def)

lemma run_Nil: "run env [] c = c"
  by (simp add: run_def)


lemma sends_cong: "wire c' = wire c \<Longrightarrow> sends c' = sends c"
  by (simp add: sends_def)




subsection \<open>Queue ordering\<close>



subsection \<open>Reconnection delay\<close>

lemma reconnect_delays_clearTimeout:
  "set (reconnect_delays (clearTimeout i c)) \<subseteq> set (reconnect_delays c)"
  by (auto simp: reconnect_delays_def clearTimeout_def)

lemma reconnect_delays_attemptReconnect:
  "reconnect_delays (attemptReconnect c) = reconnect_delays c @ [reconnectDelay c]"
  by (simp add: reconnect_delays_def attemptReconnect_def setTimeout_def)

lemma reconnect_delays_on_close:
  "reconnect_delays (on_close code reason c)
     = (if autoReconnect c \<and> reconnectAttempts c < maxReconnectAttempts c
        then reconnect_delays c @ [reconnectDelay c] else reconnect_delays c)"
  by (simp add: on_close_def Let_def reconnect_delays_attemptReconnect)
     (simp add: reconnect_delays_def)

lemma reconnect_delays_cong: "timers c' = timers c \<Longrightarrow> reconnect_delays c' = reconnect_delays c"
  by (simp add: reconnect_delays_def)

lemma reconnect_delays_resume:
  "set (reconnect_delays (resume xs c)) \<subseteq> set (reconnect_delays c)"
proof (induction xs c rule: resume.induct)
  case (1 c)
  show ?case by simp
next
  case (2 sendPromise timeoutId originalOnMessage ackPromise rest c)
  show ?case
  proof (cases "promise_state (sendPromises c) sendPromise")
    case Pending
    with "2.IH" show ?thesis by (simp add: reconnect_delays_def)
  next
    case (Resolved u)
    with "2.IH" show ?thesis by simp
  next
    case (Rejected error)
    have "set (reconnect_delays ((clearTimeout timeoutId c)
              \<lparr>onMessage := originalOnMessage,
               ackPromises := settle ackPromise (Rejected error) (ackPromises c)\<rparr>))
          \<subseteq> set (reconnect_delays c)"
      using reconnect_delays_clearTimeout [of timeoutId c] by (simp add: reconnect_delays_def)
    with "2.IH" Rejected show ?thesis by auto
  qed
qed

lemma reconnect_delays_run_microtasks:
  "set (reconnect_delays (run_microtasks c)) \<subseteq> set (reconnect_delays c)"
  using reconnect_delays_resume [of "awaiting c" "c\<lparr>awaiting := []\<rparr>"]
  by (simp add: run_microtasks_def reconnect_delays_def)

lemma reconnect_delays_invoke:
  "set (reconnect_delays (invoke env h data c)) \<subseteq> set (reconnect_delays c)"
proof (induction h arbitrary: c)
  case Noop
  show ?case by simp
next
  case (User tag)
  show ?case by (simp add: reconnect_delays_def)
next
  case (AckInterceptor messageId timeoutId ackPromise originalOnMessage)
  have "set (reconnect_delays ((clearTimeout timeoutId c)
              \<lparr>onMessage := originalOnMessage,
               ackPromises := settle ackPromise (Resolved v) (ackPromises c)\<rparr>))
          \<subseteq> set (reconnect_delays c)" for v
    using reconnect_delays_clearTimeout [of timeoutId c] by (simp add: reconnect_delays_def)
  with AckInterceptor.IH show ?case by (auto split: option.splits)
qed

lemma timers_send: "timers (snd (send env message queue c)) = timers c"
  by (simp add: send_def Let_def sendMessage_frame)

lemma timers_connect: "timers (snd (connect env c)) = timers c"
  by (simp add: connect_def Let_def split: option.split)

lemma reconnect_delays_sendWithAck:
  "reconnect_delays (snd (sendWithAck env now random message timeout c)) = reconnect_delays c"
proof -
  have "timers (snd (sendWithAck env now random message timeout c))
          = timers c @ [(nextTimer c, timeout, AckTimeout (length (ackPromises c)))]"
    by (simp add: sendWithAck_def Let_def setTimeout_def case_prod_beta timers_send)
  then show ?thesis by (simp add: reconnect_delays_def)
qed


lemma reconnectDelay_handle: "reconnectDelay (handle env a c) = reconnectDelay c"
proof (cases a)
  case (SendWithAck now random message timeout)
  then show ?thesis
    by (simp add: sendWithAck_def Let_def setTimeout_def case_prod_beta send_def sendMessage_frame)
next
  case (TimerFires timeoutId)
  then show ?thesis
    by (simp add: timerFires_def clearTimeout_def connect_def Let_def
          split: option.split prod.split timer_action.split)
qed (simp_all add: connect_def disconnect_def send_def sendMessage_frame on_open_def on_close_def
       on_error_def on_message_def sendCallback_def attemptReconnect_def setTimeout_def
       flushQueue_frame invoke_frame set_readyState_def ws_close_def Let_def split: option.split)

lemma reconnectDelay_step: "reconnectDelay (step env a c) = reconnectDelay c"
  by (simp add: step_def run_microtasks_frame reconnectDelay_handle)

lemma reconnectDelay_run: "reconnectDelay (run env as c) = reconnectDelay c"
  by (induction as arbitrary: c) (simp_all add: run_Nil run_Cons reconnectDelay_step)

lemma reconnect_delays_timerFires:
  "set (reconnect_delays (timerFires env timeoutId c)) \<subseteq> set (reconnect_delays c)"
proof (cases "find (\<lambda>t. fst t = timeoutId) (timers c)")
  case None
  then show ?thesis by (simp add: timerFires_def)
next
  case (Some t)
  obtain i delay act where t: "t = (i, delay, act)" by (cases t)
  show ?thesis
  proof (cases act)
    case (AckTimeout ackPromise)
    with Some t reconnect_delays_clearTimeout [of timeoutId c] show ?thesis
      by (simp add: timerFires_def Let_def reconnect_delays_def)
  next
    case Reconnect
    have "reconnect_delays (snd (connect env (clearTimeout timeoutId c)))
            = reconnect_delays (clearTimeout timeoutId c)"
      by (rule reconnect_delays_cong) (rule timers_connect)
    with Some t Reconnect reconnect_delays_clearTimeout [of timeoutId c] show ?thesis
      by (simp add: timerFires_def Let_def)
  qed
qed

lemma reconnect_delays_handle:
  "set (reconnect_delays (handle env a c)) \<subseteq> set (reconnect_delays c) \<union> {reconnectDelay c}"
proof (cases a)
  case Connect
  then show ?thesis using reconnect_delays_cong [OF timers_connect, of env c] by auto
next
  case Disconnect
  then show ?thesis
    by (auto simp: disconnect_def ws_close_def set_readyState_def reconnect_delays_def
          split: option.split)
next
  case (Send message queue)
  then show ?thesis using reconnect_delays_cong [OF timers_send, of env message queue c] by auto
next
  case (SendWithAck now random message timeout)
  then show ?thesis by (auto simp: reconnect_delays_sendWithAck)
next
  case (SocketOpen k)
  then show ?thesis
    by (auto simp: on_open_def Let_def reconnect_delays_def flushQueue_frame set_readyState_def)
next
  case (SocketClose k code reason)
  then show ?thesis
    using reconnect_delays_on_close [of code reason "set_readyState k CLOSED c"]
          reconnect_delays_cong [of "set_readyState k CLOSED c" c]
    by auto
next
  case (SocketError k error)
  then show ?thesis by (auto simp: on_error_def Let_def reconnect_delays_def)
next
  case (SocketMessage k data)
  have "set (reconnect_delays (on_message env data c)) \<subseteq> set (reconnect_delays c)"
    using reconnect_delays_invoke
      [of env "onMessage c" data "c\<lparr>stats := (stats c)\<lparr>received := received (stats c) + 1\<rparr>\<rparr>"]
    by (simp add: on_message_def Let_def reconnect_delays_def)
  with SocketMessage show ?thesis by auto
next
  case (SendCallback i error)
  then show ?thesis
    by (auto simp: sendCallback_def Let_def reconnect_delays_def split: option.split)
next
  case (TimerFires timeoutId)
  then show ?thesis using reconnect_delays_timerFires [of env timeoutId c] by auto
qed

lemma reconnect_delays_step:
  "set (reconnect_delays (step env a c)) \<subseteq> set (reconnect_delays c) \<union> {reconnectDelay c}"
  using reconnect_delays_run_microtasks [of "handle env a c"] reconnect_delays_handle [of env a c]
  by (auto simp: step_def)

lemma reconnect_delays_run:
  "set (reconnect_delays (run env as c)) \<subseteq> set (reconnect_delays c) \<union> {reconnectDelay c}"
proof (induction as arbitrary: c)
  case Nil
  show ?case by (auto simp: run_Nil)
next
  case (Cons a as)
  show ?case
    using Cons.IH [of "step env a c"] reconnect_delays_step [of env a c]
    by (auto simp: run_Cons reconnectDelay_step)
qed

subsection \<open>The backoff of the connection manager\<close>

lemma pow_attempts: "1 \<le> n \<Longrightarrow> (2::real) powi (int n - 1) = 2 ^ (n - 1)"
  by (simp add: power_int_def nat_diff_distrib')

lemma doubled_delay_le: "(real a * 2 ^ k \<le> real b) = (a * 2 ^ k \<le> b)"
proof -
  have "real a * 2 ^ k = real (a * 2 ^ k)" by simp
  then show ?thesis by (simp only: of_nat_le_iff)
qed

lemma calculateReconnectDelay_cap:
  assumes "1 \<le> reconnectAttempts_cm m"
  shows "calculateReconnectDelay r m
           = nat \<lfloor>real (backoff_cap (options_cm m) (reconnectAttempts_cm m)) * (1 / 2 + r / 2)\<rfloor>"
  using assms
  by (simp add: calculateReconnectDelay_def backoff_cap_def Let_def pow_attempts min_def
        doubled_delay_le)

lemma jitter_bounds:
  assumes "0 \<le> r" and "r < 1"
  shows "c div 2 \<le> nat \<lfloor>real c * (1 / 2 + r / 2)\<rfloor>"
    and "nat \<lfloor>real c * (1 / 2 + r / 2)\<rfloor> \<le> c"
proof -
  have "2 * (c div 2) \<le> c" by simp
  then have "real (2 * (c div 2)) \<le> real c" by (simp only: of_nat_le_iff)
  then have "real (c div 2) \<le> real c / 2" by simp
  also have "\<dots> \<le> real c * (1 / 2 + r / 2)"
    using assms(1) by (simp add: algebra_simps)
  finally show "c div 2 \<le> nat \<lfloor>real c * (1 / 2 + r / 2)\<rfloor>" by (rule le_nat_floor)
  have "real c * (1 / 2 + r / 2) \<le> real c * 1"
    using assms(2) by (intro mult_left_mono) simp_all
  then have "\<lfloor>real c * (1 / 2 + r / 2)\<rfloor> \<le> \<lfloor>real c\<rfloor>" by (intro floor_mono) simp
  then show "nat \<lfloor>real c * (1 / 2 + r / 2)\<rfloor> \<le> c" by simp
qed

lemma attemptReconnect_cm_schedules:
  assumes "connectionState m \<noteq> Reconnecting" and "url_cm m \<noteq> None" and "url_cm m \<noteq> Some []"
  shows "waits (attemptReconnect_cm env m)
           = waits m @ [(nextWait m,
                calculateReconnectDelay (Math_random env (random_calls m))
                  (m\<lparr>reconnectAttempts_cm := reconnectAttempts_cm m + 1,
                     connectionState := Reconnecting\<rparr>))]"
    and "trace_cm (attemptReconnect_cm env m)
           = trace_cm m @ [M_onReconnect (reconnectAttempts_cm m + 1)
                (maxReconnectAttempts_cm (options_cm m))
                (calculateReconnectDelay (Math_random env (random_calls m))
                  (m\<lparr>reconnectAttempts_cm := reconnectAttempts_cm m + 1,
                     connectionState := Reconnecting\<rparr>))]"
    and "reconnectAttempts_cm (attemptReconnect_cm env m) = reconnectAttempts_cm m + 1"
    and "connectionState (attemptReconnect_cm env m) = Reconnecting"
  using assms by (simp_all add: attemptReconnect_cm_def Let_def)

text \<open>
  C4, as amended. A call of \<open>attemptReconnect\<close> that goes ahead counts the attempt,
  \<open>n\<close>, reports it to \<open>onReconnect\<close> together with the delay, and waits for that
  delay, which is the capped delay of attempt \<open>n\<close> multiplied by
  \<open>0.5 + 0.5 * Math.random()\<close> and rounded down: it lies between half the capped
  delay, rounded down, and the capped delay. The bound of the specification holds when
  \<open>exponentialBackoff\<close> is on, the doubled base delay has not reached the cap, and it
  is an even number.
\<close>

theorem reconnect_delay_bounds:
  assumes "0 \<le> Math_random env (random_calls m)" and "Math_random env (random_calls m) < 1"
      and "connectionState m \<noteq> Reconnecting" and "url_cm m \<noteq> None" and "url_cm m \<noteq> Some []"
  shows "waits (attemptReconnect_cm env m) = waits m @ [(nextWait m, scheduled_delay env m)]
       \<and> trace_cm (attemptReconnect_cm env m)
           = trace_cm m @ [M_onReconnect (reconnectAttempts_cm m + 1)
                             (maxReconnectAttempts_cm (options_cm m)) (scheduled_delay env m)]
       \<and> reconnectAttempts_cm (attemptReconnect_cm env m) = reconnectAttempts_cm m + 1
       \<and> scheduled_delay env m
           = nat \<lfloor>real (backoff_cap (options_cm m) (reconnectAttempts_cm m + 1))
                    * (1 / 2 + Math_random env (random_calls m) / 2)\<rfloor>
       \<and> backoff_cap (options_cm m) (reconnectAttempts_cm m + 1) div 2 \<le> scheduled_delay env m
       \<and> scheduled_delay env m \<le> backoff_cap (options_cm m) (reconnectAttempts_cm m + 1)
       \<and> (exponentialBackoff (options_cm m)
            \<and> reconnectDelay_cm (options_cm m) * 2 ^ reconnectAttempts_cm m
                 \<le> maxReconnectDelay (options_cm m)
            \<and> even (reconnectDelay_cm (options_cm m) * 2 ^ reconnectAttempts_cm m)
          \<longrightarrow> spec_backoff_bound (reconnectDelay_cm (options_cm m)) (maxReconnectDelay (options_cm m))
                (reconnectAttempts_cm m + 1) (scheduled_delay env m))"
proof -
  let ?n = "reconnectAttempts_cm m + 1"
  let ?r = "Math_random env (random_calls m)"
  let ?c = "backoff_cap (options_cm m) ?n"
  let ?m1 = "m\<lparr>reconnectAttempts_cm := ?n, connectionState := Reconnecting\<rparr>"
  note s = attemptReconnect_cm_schedules [OF assms(3,4,5), of env]
  have d: "scheduled_delay env m = calculateReconnectDelay ?r ?m1"
    by (simp add: scheduled_delay_def s(1))
  have e: "calculateReconnectDelay ?r ?m1 = nat \<lfloor>real ?c * (1 / 2 + ?r / 2)\<rfloor>"
    using calculateReconnectDelay_cap [of ?m1 ?r] by simp
  note b = jitter_bounds [OF assms(1,2), of ?c]
  have lo: "?c div 2 \<le> scheduled_delay env m" and hi: "scheduled_delay env m \<le> ?c"
    unfolding d e using b by simp_all
  have "spec_backoff_bound (reconnectDelay_cm (options_cm m)) (maxReconnectDelay (options_cm m))
          ?n (scheduled_delay env m)"
    if x: "exponentialBackoff (options_cm m)"
      "reconnectDelay_cm (options_cm m) * 2 ^ reconnectAttempts_cm m \<le> maxReconnectDelay (options_cm m)"
      "even (reconnectDelay_cm (options_cm m) * 2 ^ reconnectAttempts_cm m)"
  proof -
    let ?x = "reconnectDelay_cm (options_cm m) * 2 ^ reconnectAttempts_cm m"
    have c: "?c = ?x" using x(1,2) by (simp add: backoff_cap_def)
    have "?x = 2 * (?x div 2)" using x(3) by simp
    also have "\<dots> \<le> 2 * scheduled_delay env m" using lo c by simp
    finally have "?x \<le> 2 * scheduled_delay env m" .
    moreover have "scheduled_delay env m \<le> min ?x (maxReconnectDelay (options_cm m))"
      using hi c x(2) by simp
    ultimately show ?thesis by (simp add: spec_backoff_bound_def)
  qed
  moreover have "waits (attemptReconnect_cm env m) = waits m @ [(nextWait m, scheduled_delay env m)]"
    unfolding d by (rule s(1))
  moreover have "trace_cm (attemptReconnect_cm env m)
           = trace_cm m @ [M_onReconnect (reconnectAttempts_cm m + 1)
                             (maxReconnectAttempts_cm (options_cm m)) (scheduled_delay env m)]"
    unfolding d by (rule s(2))
  moreover have "scheduled_delay env m
           = nat \<lfloor>real (backoff_cap (options_cm m) (reconnectAttempts_cm m + 1))
                    * (1 / 2 + Math_random env (random_calls m) / 2)\<rfloor>"
    unfolding d by (rule e)
  ultimately show ?thesis using s(3) lo hi by blast
qed

theorem reconnect_delay_bounds_witness:
  "0 \<le> Math_random steady_env
          (random_calls (run_cm steady_env [M_connect ''wss://example.com/ws''] (new_manager default_args)))
   \<and> Math_random steady_env
          (random_calls (run_cm steady_env [M_connect ''wss://example.com/ws''] (new_manager default_args))) < 1
   \<and> connectionState (run_cm steady_env [M_connect ''wss://example.com/ws''] (new_manager default_args))
        \<noteq> Reconnecting
   \<and> url_cm (run_cm steady_env [M_connect ''wss://example.com/ws''] (new_manager default_args)) \<noteq> None
   \<and> url_cm (run_cm steady_env [M_connect ''wss://example.com/ws''] (new_manager default_args)) \<noteq> Some []
   \<and> exponentialBackoff (options_cm (new_manager default_args))
   \<and> reconnectDelay_cm (options_cm (new_manager default_args)) * 2 ^ 0
        \<le> maxReconnectDelay (options_cm (new_manager default_args))
   \<and> even (reconnectDelay_cm (options_cm (new_manager default_args)) * 2 ^ 0)
   \<and> scheduled_delay steady_env
        (run_cm steady_env [M_connect ''wss://example.com/ws''] (new_manager default_args)) = 750
   \<and> spec_backoff_bound 1000 30000 1 750"
  using reconnect_delay_bounds
    [of steady_env "run_cm steady_env [M_connect ''wss://example.com/ws''] (new_manager default_args)"]
  by (simp add: run_cm_def connect_cm_def new_manager_def default_args_def steady_env_def
        backoff_cap_def spec_backoff_bound_def Let_def)

text \<open>
  C4 as stated fails once the cap is reached. A manager allowed ten attempts, with the
  default delays of 1000 and 30000 ms, loses its connection and fails to reconnect six
  times, and the new socket closes again: attempt 7 is within the ten allowed and
  waits 22500 ms when \<open>Math.random()\<close> returns one half, below the lower bound
  \<open>1000 * 2^6 * 0.5 = 32000\<close>. No delay meets the bound of the specification at
  attempt 7, since its lower bound is above the cap; at attempt 6 the wait is 22500 ms
  as well, and 15000 ms if \<open>Math.random()\<close> returns 0, below the lower bound 16000.
\<close>

theorem capped_delay_below_specified_bound:
  "maxReconnectAttempts_cm (options_cm (new_manager ten_attempts)) = 10
   \<and> reconnectAttempts_cm
        (run_cm steady_env (six_failures @ [M_socket_close 6 1006]) (new_manager ten_attempts)) = 7
   \<and> waits (run_cm steady_env (six_failures @ [M_socket_close 6 1006]) (new_manager ten_attempts))
        = [(6, 22500)]
   \<and> \<not> spec_backoff_bound 1000 30000 7 22500
   \<and> (\<forall>delay. \<not> spec_backoff_bound 1000 30000 7 delay)
   \<and> calculateReconnectDelay 0 (run_cm steady_env six_failures (new_manager ten_attempts)) = 15000
   \<and> reconnectAttempts_cm (run_cm steady_env six_failures (new_manager ten_attempts)) = 6
   \<and> \<not> spec_backoff_bound 1000 30000 6 15000"
  by (simp add: run_cm_def six_failures_def new_manager_def ten_attempts_def default_args_def
        steady_env_def onclose_cm_def handleDisconnection_def shouldAttemptReconnect_def
        attemptReconnect_cm_def attemptReconnect_resume_def connect_cm_def
        calculateReconnectDelay_def power_int_def spec_backoff_bound_def Let_def)
subsection \<open>Disconnecting\<close>

lemma disconnect_twice:
  "disconnect (disconnect c)
     = (disconnect c)\<lparr>trace := trace (disconnect c)
                              @ (case ws c of None \<Rightarrow> [] | Some k \<Rightarrow> [CloseRequested k])\<rparr>"
  by (auto simp: disconnect_def ws_close_def set_readyState_def readyState_def split: option.split)

text \<open>
  What \<open>disconnect()\<close> does in the client: it asks the current socket to close and
  clears \<open>isConnected\<close> (it does nothing without a socket); it cancels no timer and
  runs no close callback, also when called twice. The close handler that follows
  schedules a reconnection exactly when \<open>autoReconnect\<close> is set and the attempts are
  below the maximum, whatever the close code.
\<close>

lemma disconnect_then_close:
  "trace (disconnect c) = trace c @ (case ws c of None \<Rightarrow> [] | Some k \<Rightarrow> [CloseRequested k])
   \<and> isConnected (disconnect c) = (ws c = None \<and> isConnected c)
   \<and> timers (disconnect c) = timers c
   \<and> isConnected (disconnect (disconnect c)) = isConnected (disconnect c)
   \<and> filter is_OnClose (trace (disconnect (disconnect c))) = filter is_OnClose (trace c)
   \<and> filter is_OnClose (trace (on_close code reason (disconnect c)))
       = filter is_OnClose (trace c) @ [OnClose code reason]
   \<and> \<not> isConnected (on_close code reason (disconnect c))
   \<and> reconnect_delays (on_close code reason (disconnect c))
       = (if autoReconnect c \<and> reconnectAttempts c < maxReconnectAttempts c
          then reconnect_delays c @ [reconnectDelay c] else reconnect_delays c)"
  by (simp add: reconnect_delays_on_close)
     (simp add: disconnect_def on_close_def attemptReconnect_def setTimeout_def Let_def
        reconnect_delays_def split: option.split)

text \<open>
  The connection manager closes with the code 1000, and its close handler starts no
  reconnection for that code. Its \<open>disconnect()\<close> leaves a wait that is under way
  alone.
\<close>

lemma manager_disconnect_closes_normally:
  "trace_cm (disconnect_cm m) = trace_cm m @ (case ws_cm m of None \<Rightarrow> [] | Some k \<Rightarrow> [M_close k 1000])
   \<and> waits (disconnect_cm m) = waits m
   \<and> \<not> shouldAttemptReconnect 1000 m
   \<and> waits (onclose_cm env 1000 m) = waits m
   \<and> connectionState (onclose_cm env 1000 m) = Disconnected
   \<and> reconnectAttempts_cm (onclose_cm env 1000 m) = reconnectAttempts_cm m"
  by (simp add: disconnect_cm_def onclose_cm_def handleDisconnection_def shouldAttemptReconnect_def
        Let_def split: option.split)

text \<open>
  C5 fails in the code. A connected client with the default options calls
  \<open>disconnect()\<close>: the socket is asked to close, and when its close event arrives,
  with the normal-closure code 1000, the close handler schedules a reconnection; the
  timer fires, a second socket is made, and it opens. Nor is a pending reconnection
  cancelled: after an abnormal closure has scheduled one, \<open>disconnect()\<close> leaves the
  timer in place, and it reconnects. The connection manager, in the same run, starts
  no reconnection.
\<close>

theorem reconnects_after_disconnect:
  "autoReconnect connected_client
   \<and> isConnected connected_client
   \<and> trace (step demo_env Disconnect connected_client) = [OnOpen, CloseRequested 0]
   \<and> readyState (step demo_env Disconnect connected_client) 0 = CLOSING
   \<and> \<not> isConnected (step demo_env Disconnect connected_client)
   \<and> timers (run demo_env [Disconnect, SocketClose 0 1000 []] connected_client) = [(0, 1000, Reconnect)]
   \<and> ws (run demo_env [Disconnect, SocketClose 0 1000 [], TimerFires 0] connected_client) = Some 1
   \<and> connections (stats (run demo_env [Disconnect, SocketClose 0 1000 [], TimerFires 0] connected_client)) = 2
   \<and> isConnected (run demo_env [Disconnect, SocketClose 0 1000 [], TimerFires 0, SocketOpen 1] connected_client)
   \<and> timers (run demo_env [SocketClose 0 1006 [], Disconnect] connected_client) = [(0, 1000, Reconnect)]
   \<and> isConnected (run demo_env [SocketClose 0 1006 [], Disconnect, TimerFires 0, SocketOpen 1] connected_client)
   \<and> waits (run_cm steady_env
        [M_connect ''wss://example.com/ws'', M_socket_open 0, M_disconnect, M_socket_close 0 1000]
        (new_manager default_args)) = []
   \<and> connectionState (run_cm steady_env
        [M_connect ''wss://example.com/ws'', M_socket_open 0, M_disconnect, M_socket_close 0 1000]
        (new_manager default_args)) = Disconnected"
  by (simp add: connected_client_def client_defs demo_env_def flushQueue_Nil Let_def
        run_cm_def connect_cm_def onopen_cm_def disconnect_cm_def onclose_cm_def
        handleDisconnection_def shouldAttemptReconnect_def new_manager_def default_args_def
        steady_env_def)
subsection \<open>The payload of sendWithAck\<close>

lemma map_of_replace_other:
  "x \<noteq> k \<Longrightarrow> map_of (map (\<lambda>kv. if fst kv = k then (k, v) else kv) kvs) x = map_of kvs x"
  by (induction kvs) auto

lemma map_of_replace_same:
  "k \<in> fst ` set kvs \<Longrightarrow> map_of (map (\<lambda>kv. if fst kv = k then (k, v) else kv) kvs) k = Some v"
  by (induction kvs) auto

lemma map_of_replace:
  "k \<in> fst ` set kvs
   \<Longrightarrow> map_of (map (\<lambda>kv. if fst kv = k then (k, v) else kv) kvs) = (map_of kvs)(k \<mapsto> v)"
  by (simp add: fun_eq_iff map_of_replace_other map_of_replace_same)

lemma map_of_insert_fresh:
  "k \<notin> fst ` set (xs @ ys) \<Longrightarrow> map_of (xs @ (k, v) # ys) = (map_of (xs @ ys))(k \<mapsto> v)"
  by (induction xs) (auto simp: fun_eq_iff)

lemma map_of_js_set: "map_of (js_set k v kvs) = (map_of kvs)(k \<mapsto> v)"
proof (cases "k \<in> fst ` set kvs")
  case True
  then show ?thesis by (simp add: js_set_def map_of_replace)
next
  case False
  show ?thesis
  proof (cases "array_index k")
    case None
    with False map_of_insert_fresh [of k kvs "[]" v] show ?thesis by (simp add: js_set_def)
  next
    case (Some i)
    have "k \<notin> fst ` set (takeWhile (index_below i) kvs @ dropWhile (index_below i) kvs)"
      using False by simp
    from map_of_insert_fresh [OF this, of v] False Some show ?thesis
      by (simp add: js_set_def)
  qed
qed

lemma connected_client_eq:
  "connected_client =
     (new_client default_options)
       \<lparr>ws := Some 0, isConnected := True, sockets := [(0, OPEN)], connectPromises := [Resolved ()],
        stats := \<lparr>sent = 0, received = 0, error_count = 0, connections = 1, disconnections = 0\<rparr>,
        trace := [OnOpen]\<rparr>"
  by (simp add: connected_client_def client_defs demo_env_def flushQueue_Nil Let_def)

lemma make_messageId_example: "make_messageId 42 ''0.5'' = ''msg_42_0.5''"
  by code_simp

lemma sendWithAck_transmits:
  "(if ws c = None \<or> \<not> isConnected c
    then messageQueue (snd (sendWithAck env now random message timeout c))
           = messageQueue c @ [(ack_payload env (make_messageId now random) message,
                                length (sendPromises c))]
         \<and> sends (snd (sendWithAck env now random message timeout c)) = sends c
    else messageQueue (snd (sendWithAck env now random message timeout c)) = messageQueue c
         \<and> sends (snd (sendWithAck env now random message timeout c))
           = sends c @ [(the (ws c), ack_payload env (make_messageId now random) message,
                         length (sendPromises c))])"
  by (auto simp: sendWithAck_def Let_def setTimeout_def case_prod_beta send_def sendMessage_def
        sends_def split: option.split)

lemma sendWithAck_interceptor:
  "onMessage (snd (sendWithAck env now random message timeout c))
     = AckInterceptor (make_messageId now random) (nextTimer c) (length (ackPromises c)) (onMessage c)"
  by (simp add: sendWithAck_def Let_def setTimeout_def case_prod_beta send_def sendMessage_frame)

text \<open>
  The payload that \<open>sendWithAck\<close> hands to \<open>send\<close> (queued while the flag is off,
  given to \<open>ws.send\<close> otherwise) is the message itself when the message is a string,
  and otherwise the JSON text of the object made of the own properties of the message
  with \<open>id\<close> set to the correlation id of the call, the id for which the interceptor of
  the call waits.
\<close>

lemma sendWithAck_payload:
  "ack_payload env (make_messageId now random) message
     = (if isString message then message
        else JStr (JSON_stringify env (ack_object message (make_messageId now random))))
   \<and> map_of (ack_object message (make_messageId now random))
       = (map_of (spread message))(''id'' \<mapsto> JStr (make_messageId now random))
   \<and> onMessage (snd (sendWithAck env now random message timeout c))
       = AckInterceptor (make_messageId now random) (nextTimer c) (length (ackPromises c)) (onMessage c)"
proof -
  have "ack_payload env messageId message
     = (if isString message then message
        else JStr (JSON_stringify env (ack_object message messageId)))" for messageId
    by (cases message) (simp_all add: ack_payload_def isString_def)
  moreover have "map_of (ack_object message messageId)
                   = (map_of (spread message))(''id'' \<mapsto> JStr messageId)" for messageId
    by (simp add: ack_object_def map_of_js_set)
  ultimately show ?thesis
    by (simp add: sendWithAck_interceptor)
qed

text \<open>
  C9 fails in the code, on every string. \<open>sendWithAck\<close> transmits a string as it is,
  whatever the correlation id of the call: the id stays in the interceptor and never
  reaches the peer, so no acknowledgment can name it. The client's own \<open>ping\<close> is such
  a call: on the connected client, at clock 42 with \<open>Math.random()\<close> giving 0.5, it
  transmits the bare text \<open>PING\<close> and waits for an acknowledgment of \<open>msg_42_0.5\<close>;
  at another clock and another random number it transmits the same text. The branch
  for the other payloads does merge the id: \<open>{type: "chat"}\<close> is transmitted as
  \<open>{"type":"chat","id":"msg_42_0.5"}\<close>.
\<close>

theorem string_payload_carries_no_id:
  \<open>ack_payload env (make_messageId now random) (JStr s) = JStr s
   \<and> sends (snd (sendWithAck env now random (JStr s) timeout connected_client)) = [(0, JStr s, 0)]
   \<and> sends (snd (ping demo_env 42 ''0.5'' 5000 connected_client)) = [(0, JStr ''PING'', 0)]
   \<and> onMessage (snd (ping demo_env 42 ''0.5'' 5000 connected_client))
       = AckInterceptor ''msg_42_0.5'' 0 0 (User 0)
   \<and> sends (snd (ping demo_env 43 ''0.25'' 5000 connected_client)) = [(0, JStr ''PING'', 0)]
   \<and> sends (snd (sendWithAck demo_env 42 ''0.5'' (JObj [(''type'', JStr ''chat'')]) 5000 connected_client))
       = [(0, JStr ''{"type":"chat","id":"msg_42_0.5"}'', 0)]\<close>
proof -
  have id: "ack_payload e (make_messageId n r) (JStr t) = JStr t" for e n r t
    by (simp add: ack_payload_def)
  have "sends (snd (sendWithAck e n r (JStr t) d connected_client)) = [(0, JStr t, 0)]" for e n r t d
    using sendWithAck_transmits [of connected_client e n r "JStr t" d]
    by (simp add: id connected_client_eq sends_def new_client_def default_options_def)
  moreover have \<open>sends (snd (sendWithAck demo_env 42 ''0.5'' (JObj [(''type'', JStr ''chat'')]) 5000 connected_client))
       = [(0, JStr ''{"type":"chat","id":"msg_42_0.5"}'', 0)]\<close>
    using sendWithAck_transmits [of connected_client demo_env 42 "''0.5''" "JObj [(''type'', JStr ''chat'')]" 5000]
    by (simp add: make_messageId_example ack_payload_def ack_object_def js_set_def array_index_def
          digit_val_def connected_client_eq sends_def demo_env_def new_client_def default_options_def)
  moreover have "onMessage (snd (ping demo_env 42 ''0.5'' 5000 connected_client))
       = AckInterceptor ''msg_42_0.5'' 0 0 (User 0)"
    by (simp add: ping_def sendWithAck_interceptor make_messageId_example connected_client_eq
          new_client_def default_options_def)
  ultimately show ?thesis by (simp add: id ping_def)
qed


subsection \<open>The interceptor\<close>

lemma awaiting_ack_client_eq:
  \<open>awaiting_ack_client =
     connected_client
       \<lparr>onMessage := AckInterceptor ''msg_42_0.5'' 0 0 (User 0),
        sendPromises := [Pending], ackPromises := [Pending],
        awaiting := [(0, 0, User 0, 0)],
        timers := [(0, 5000, AckTimeout 0)], nextTimer := 1,
        wire := [(0, JStr ''{"type":"chat","id":"msg_42_0.5"}'', 0, None)]\<rparr>\<close>
  by (simp add: awaiting_ack_client_def connected_client_eq step_def sendWithAck_def
        make_messageId_example
        setTimeout_def send_def sendMessage_def run_microtasks_def promise_state_def
        ack_payload_def ack_object_def js_set_def array_index_def digit_val_def
        readyState_def demo_env_def new_client_def default_options_def Let_def)

lemma interceptor_forwards_on_exception:
  "JSON_parse env data = None \<or> JSON_parse env data = Some JNull
   \<Longrightarrow> invoke env (AckInterceptor messageId timeoutId ackPromise originalOnMessage) data c
       = invoke env originalOnMessage data c"
  by auto

lemma interceptor_drops_parsed:
  "JSON_parse env data = Some parsedData \<Longrightarrow> parsedData \<noteq> JNull \<Longrightarrow> parsedData \<noteq> JUndefined
   \<Longrightarrow> get_property (inherited env) parsedData ''id'' \<noteq> JStr messageId
   \<Longrightarrow> invoke env (AckInterceptor messageId timeoutId ackPromise originalOnMessage) data c = c"
  by simp

lemma interceptor_restores_on_ack:
  "JSON_parse env data = Some parsedData \<Longrightarrow> parsedData \<noteq> JNull \<Longrightarrow> parsedData \<noteq> JUndefined
   \<Longrightarrow> truthy (get_property (inherited env) parsedData ''ack'')
   \<Longrightarrow> get_property (inherited env) parsedData ''id'' = JStr messageId
   \<Longrightarrow> onMessage (invoke env (AckInterceptor messageId timeoutId ackPromise originalOnMessage) data c)
       = originalOnMessage"
  by (simp add: clearTimeout_def)

lemma ack_timeout_keeps_callback:
  "find (\<lambda>t. fst t = timeoutId) (timers c) = Some (i, delay, AckTimeout ackPromise)
   \<Longrightarrow> onMessage (timerFires env timeoutId c) = onMessage c"
  by (simp add: timerFires_def clearTimeout_def Let_def)

text \<open>
  C1 fails in the code. While \<open>sendWithAck\<close> with id \<open>msg_42_0.5\<close> is outstanding, the
  well-formed message \<open>{"type":"news","id":"other"}\<close> arrives: the interceptor parses
  it, finds no acknowledgment of \<open>msg_42_0.5\<close>, and returns; the callback of the caller,
  in force before the call, is not invoked, and the call stays pending. A text that
  is not JSON does reach that callback, through the \<open>catch\<close> block.
\<close>

theorem interceptor_swallows_parsed_message:
  \<open>onMessage connected_client = User 0
   \<and> onMessage awaiting_ack_client = AckInterceptor ''msg_42_0.5'' 0 0 (User 0)
   \<and> JSON_parse demo_env ''{"type":"news","id":"other"}''
       = Some (JObj [(''type'', JStr ''news''), (''id'', JStr ''other'')])
   \<and> trace (step demo_env (SocketMessage 0 ''{"type":"news","id":"other"}'') awaiting_ack_client)
       = trace awaiting_ack_client
   \<and> received (stats (step demo_env (SocketMessage 0 ''{"type":"news","id":"other"}'') awaiting_ack_client)) = 1
   \<and> promise_state
        (ackPromises (step demo_env (SocketMessage 0 ''{"type":"news","id":"other"}'') awaiting_ack_client)) 0
       = Pending
   \<and> trace (step demo_env (SocketMessage 0 ''not json'') awaiting_ack_client)
       = trace awaiting_ack_client @ [OnMessage 0 ''not json'']\<close>
  by (simp add: awaiting_ack_client_eq connected_client_eq step_def on_message_def
        run_microtasks_def promise_state_def get_property_def object_prototype_def
        readyState_def demo_env_def new_client_def default_options_def Let_def)

text \<open>
  C2 fails in the code. When the timer of an outstanding \<open>sendWithAck\<close> fires, the
  call is rejected with the timeout error and the interceptor stays installed: the
  message callback in force is not the one in force before the call.
\<close>

theorem timeout_leaves_interceptor_installed:
  "onMessage connected_client = User 0
   \<and> onMessage awaiting_ack_client = AckInterceptor ''msg_42_0.5'' 0 0 (User 0)
   \<and> promise_state (ackPromises (step demo_env (TimerFires 0) awaiting_ack_client)) 0
       = Rejected ''Message acknowledgment timeout''
   \<and> onMessage (step demo_env (TimerFires 0) awaiting_ack_client)
       = AckInterceptor ''msg_42_0.5'' 0 0 (User 0)"
  by (simp add: awaiting_ack_client_eq connected_client_eq step_def timerFires_def
        clearTimeout_def settle_def run_microtasks_def promise_state_def
        readyState_def demo_env_def new_client_def default_options_def Let_def)

text \<open>The two other ways of settling do restore the callback.\<close>

lemma other_settlements_restore_callback:
  \<open>promise_state
     (ackPromises (step demo_env (SocketMessage 0 ''{"ack":true,"id":"msg_42_0.5"}'') awaiting_ack_client)) 0
     = Resolved (JObj [(''ack'', JBool True), (''id'', JStr ''msg_42_0.5'')])
   \<and> onMessage (step demo_env (SocketMessage 0 ''{"ack":true,"id":"msg_42_0.5"}'') awaiting_ack_client) = User 0
   \<and> promise_state
       (ackPromises (step demo_env (SendCallback 0 (Some ''socket hang up'')) awaiting_ack_client)) 0
     = Rejected ''socket hang up''
   \<and> onMessage (step demo_env (SendCallback 0 (Some ''socket hang up'')) awaiting_ack_client) = User 0\<close>
  by (simp add: awaiting_ack_client_eq connected_client_eq step_def on_message_def sendCallback_def
        clearTimeout_def settle_def run_microtasks_def promise_state_def get_property_def
        readyState_def demo_env_def new_client_def default_options_def Let_def)

subsection \<open>A queued send resolves only once delivered\<close>

lemma length_settle: "length (settle q v ps) = length ps"
  by (simp add: settle_def)

lemma promise_state_settle_other: "q \<noteq> p \<Longrightarrow> promise_state (settle q v ps) p = promise_state ps p"
  by (simp add: settle_def promise_state_def)

lemma promise_state_settle_Rejected:
  "promise_state (settle q (Rejected e) ps) p = Resolved u \<Longrightarrow> promise_state ps p = Resolved u"
  by (auto simp: settle_def promise_state_def nth_list_update split: if_splits)

lemma promise_state_settle_Resolved:
  "promise_state (settle q (Resolved u) ps) p = Resolved u
   \<Longrightarrow> promise_state ps p = Resolved u \<or> q = p"
  by (auto simp: settle_def promise_state_def nth_list_update split: if_splits)

lemma promise_state_append: "p < length ps \<Longrightarrow> promise_state (ps @ xs) p = promise_state ps p"
  by (simp add: promise_state_def nth_append)

lemma delivered_mono:
  "delivered m p n c \<Longrightarrow> wire c' = wire c @ xs \<Longrightarrow> set (calledBack c) \<subseteq> set (calledBack c')
   \<Longrightarrow> delivered m p n c'"
  unfolding delivered_def
  by (metis (no_types, lifting) length_append nth_append subsetD trans_less_add1)

lemma tracked_cong:
  "sendPromises c' = sendPromises c \<Longrightarrow> messageQueue c' = messageQueue c \<Longrightarrow> wire c' = wire c
   \<Longrightarrow> calledBack c' = calledBack c \<Longrightarrow> tracked m p n c' = tracked m p n c"
  by (simp add: tracked_def delivered_def)


lemma tracked_preserved:
  assumes T: "tracked m p n c"
    and len: "length (sendPromises c) \<le> length (sendPromises c')"
    and q: "\<forall>e\<in>set (messageQueue c'). e \<in> set (messageQueue c) \<or> (snd e = p \<longrightarrow> fst e = m)"
    and w: "wire c' = wire c @ xs"
    and x: "\<forall>e\<in>set xs. fst (snd (snd e)) = p \<longrightarrow> fst (snd e) = m"
    and cb: "set (calledBack c) \<subseteq> set (calledBack c')"
    and res: "promise_state (sendPromises c') p = Resolved ()
              \<Longrightarrow> promise_state (sendPromises c) p = Resolved () \<or> delivered m p n c'"
  shows "tracked m p n c'"
proof -
  from T have p: "p < length (sendPromises c)" and n: "n \<le> length (wire c)"
    and qc: "\<forall>e\<in>set (messageQueue c). snd e = p \<longrightarrow> fst e = m"
    and wc: "\<forall>i<length (wire c). fst (snd (snd (wire c ! i))) = p
               \<longrightarrow> n \<le> i \<and> fst (snd (wire c ! i)) = m"
    and rc: "promise_state (sendPromises c) p = Resolved () \<longrightarrow> delivered m p n c"
    by (simp_all add: tracked_def)
  have 1: "p < length (sendPromises c')" using p len by simp
  have 2: "n \<le> length (wire c')" using n w by simp
  have 3: "\<forall>e\<in>set (messageQueue c'). snd e = p \<longrightarrow> fst e = m"
    using q qc by blast
  have 4: "\<forall>i<length (wire c'). fst (snd (snd (wire c' ! i))) = p
               \<longrightarrow> n \<le> i \<and> fst (snd (wire c' ! i)) = m"
  proof (intro allI impI)
    fix i assume i: "i < length (wire c')" and ip: "fst (snd (snd (wire c' ! i))) = p"
    show "n \<le> i \<and> fst (snd (wire c' ! i)) = m"
    proof (cases "i < length (wire c)")
      case True
      then have "wire c' ! i = wire c ! i" using w by (simp add: nth_append)
      with wc True ip show ?thesis by simp
    next
      case False
      then have e: "wire c' ! i = xs ! (i - length (wire c))" using w by (simp add: nth_append)
      have "i - length (wire c) < length xs" using i w False by simp
      then have "xs ! (i - length (wire c)) \<in> set xs" by simp
      with x e ip have "fst (snd (wire c' ! i)) = m" by simp
      moreover have "n \<le> i" using n False by simp
      ultimately show ?thesis by simp
    qed
  qed
  have 5: "promise_state (sendPromises c') p = Resolved () \<longrightarrow> delivered m p n c'"
  proof
    assume "promise_state (sendPromises c') p = Resolved ()"
    from res [OF this] show "delivered m p n c'"
    proof
      assume "promise_state (sendPromises c) p = Resolved ()"
      with rc have "delivered m p n c" by simp
      then show ?thesis using w cb by (rule delivered_mono)
    qed
  qed
  from 1 2 3 4 5 show ?thesis by (simp add: tracked_def)
qed

lemma sendMessage_tracked:
  assumes T: "tracked m p n c" and pm: "p' = p \<longrightarrow> m' = m"
  shows "tracked m p n (sendMessage env m' p' c)"
proof (cases "ws c")
  case None
  show ?thesis
  proof (rule tracked_preserved [OF T, where xs = "[]"])
    show "promise_state (sendPromises (sendMessage env m' p' c)) p = Resolved ()
          \<Longrightarrow> promise_state (sendPromises c) p = Resolved ()
              \<or> delivered m p n (sendMessage env m' p' c)"
      using None by (auto simp: sendMessage_def dest: promise_state_settle_Rejected)
  qed (simp_all add: sendMessage_def None length_settle)
next
  case (Some k)
  show ?thesis
  proof (cases "ws_send env (length (wire c)) k m'")
    case None
    show ?thesis
    proof (rule tracked_preserved [OF T, where xs = "[(k, m', p', None)]"])
      show "\<forall>e\<in>set [(k, m', p', None)]. fst (snd (snd e)) = p \<longrightarrow> fst (snd e) = m"
        using pm by simp
    qed (simp_all add: sendMessage_def Some None)
  next
    case (Some err)
    show ?thesis
    proof (rule tracked_preserved [OF T, where xs = "[(k, m', p', Some err)]"])
      show "\<forall>e\<in>set [(k, m', p', Some err)]. fst (snd (snd e)) = p \<longrightarrow> fst (snd e) = m"
        using pm by simp
      show "promise_state (sendPromises (sendMessage env m' p' c)) p = Resolved ()
          \<Longrightarrow> promise_state (sendPromises c) p = Resolved ()
              \<or> delivered m p n (sendMessage env m' p' c)"
        using \<open>ws c = Some k\<close> Some
        by (auto simp: sendMessage_def dest: promise_state_settle_Rejected)
    qed (simp_all add: sendMessage_def \<open>ws c = Some k\<close> Some length_settle)
  qed
qed

lemma flushQueue_tracked: "tracked m p n c \<Longrightarrow> tracked m p n (flushQueue env c)"
proof (induction env c rule: flushQueue.induct)
  case (1 env c)
  show ?case
  proof (cases "messageQueue c")
    case Nil
    with "1.prems" show ?thesis by (simp add: flushQueue_Nil)
  next
    case (Cons entry rest)
    obtain m' p' where entry: "entry = (m', p')" by (cases entry)
    have q: "messageQueue c = (m', p') # rest" using Cons entry by simp
    have pm: "p' = p \<longrightarrow> m' = m"
      using "1.prems" q by (auto simp: tracked_def)
    have "tracked m p n (c\<lparr>messageQueue := rest\<rparr>)"
      by (rule tracked_preserved [OF "1.prems", where xs = "[]"]) (simp_all add: q)
    then have "tracked m p n (sendMessage env m' p' (c\<lparr>messageQueue := rest\<rparr>))"
      using pm by (rule sendMessage_tracked)
    then have "tracked m p n (flushQueue env (sendMessage env m' p' (c\<lparr>messageQueue := rest\<rparr>)))"
      by (rule "1.IH" [OF q refl])
    then show ?thesis by (simp add: flushQueue_Cons [OF q])
  qed
qed

lemma send_tracked:
  assumes T: "tracked m p n c"
  shows "tracked m p n (snd (send env m' queue c))"
proof -
  let ?c1 = "c\<lparr>sendPromises := sendPromises c @ [Pending]\<rparr>"
  from T have p: "p < length (sendPromises c)" by (simp add: tracked_def)
  have T1: "tracked m p n ?c1"
    by (rule tracked_preserved [OF T, where xs = "[]"])
       (simp_all add: promise_state_append [OF p])
  show ?thesis
  proof (cases "ws c = None \<or> \<not> isConnected c")
    case True
    show ?thesis
    proof (cases "queue \<noteq> Some False")
      case q: True
      have "tracked m p n (?c1\<lparr>messageQueue := messageQueue ?c1 @ [(m', length (sendPromises c))]\<rparr>)"
        by (rule tracked_preserved [OF T1, where xs = "[]"]) (use p in auto)
      with True q show ?thesis by (simp add: send_def Let_def)
    next
      case q: False
      have "tracked m p n (?c1\<lparr>sendPromises :=
              settle (length (sendPromises c)) (Rejected ''WebSocket is not connected'') (sendPromises ?c1)\<rparr>)"
        by (rule tracked_preserved [OF T1, where xs = "[]"])
           (auto simp: length_settle dest: promise_state_settle_Rejected)
      with True q show ?thesis by (simp add: send_def Let_def)
    qed
  next
    case False
    have "tracked m p n (sendMessage env m' (length (sendPromises c)) ?c1)"
      using T1 by (rule sendMessage_tracked) (use p in simp)
    with False show ?thesis by (auto simp: send_def Let_def)
  qed
qed

lemma sendCallback_tracked:
  assumes T: "tracked m p n c"
  shows "tracked m p n (sendCallback i error c)"
proof (cases "i < length (wire c) \<and> i \<notin> fst ` set (calledBack c)
                \<and> snd (snd (snd (wire c ! i))) = None")
  case False
  then have "sendCallback i error c = c" unfolding sendCallback_def by (rule if_not_P)
  then show ?thesis using T by simp
next
  case True
  let ?p' = "fst (snd (snd (wire c ! i)))"
  show ?thesis
  proof (cases error)
    case (Some err)
    show ?thesis
    proof (rule tracked_preserved [OF T, where xs = "[]"])
      show "promise_state (sendPromises (sendCallback i error c)) p = Resolved ()
            \<Longrightarrow> promise_state (sendPromises c) p = Resolved ()
                \<or> delivered m p n (sendCallback i error c)"
        using True Some
        by (auto simp: sendCallback_def Let_def dest: promise_state_settle_Rejected)
    qed (use True Some in \<open>auto simp: sendCallback_def Let_def length_settle\<close>)
  next
    case None
    show ?thesis
    proof (rule tracked_preserved [OF T, where xs = "[]"])
      show "promise_state (sendPromises (sendCallback i error c)) p = Resolved ()
            \<Longrightarrow> promise_state (sendPromises c) p = Resolved ()
                \<or> delivered m p n (sendCallback i error c)"
      proof -
        assume "promise_state (sendPromises (sendCallback i error c)) p = Resolved ()"
        then have "promise_state (settle ?p' (Resolved ()) (sendPromises c)) p = Resolved ()"
          using True None by (simp add: sendCallback_def Let_def)
        then have "promise_state (sendPromises c) p = Resolved () \<or> ?p' = p"
          by (rule promise_state_settle_Resolved)
        then show ?thesis
        proof
          assume eq: "?p' = p"
          with T True have "n \<le> i \<and> fst (snd (wire c ! i)) = m"
            by (simp add: tracked_def)
          then have "delivered m p n (sendCallback i error c)"
            using True None eq by (auto simp: delivered_def sendCallback_def Let_def)
          then show ?thesis ..
        qed simp
      qed
    qed (use True None in \<open>auto simp: sendCallback_def Let_def length_settle\<close>)
  qed
qed


lemma sendWithAck_unfold:
  "snd (sendWithAck env now random message timeout c)
     = (let messageId = make_messageId now random;
            c3 = c\<lparr>ackPromises := ackPromises c @ [Pending],
                    timers := timers c @ [(nextTimer c, timeout, AckTimeout (length (ackPromises c)))],
                    nextTimer := nextTimer c + 1,
                    onMessage := AckInterceptor messageId (nextTimer c) (length (ackPromises c)) (onMessage c)\<rparr>;
            r = send env (ack_payload env messageId message) None c3
        in (snd r)\<lparr>awaiting := awaiting (snd r)
                      @ [(fst r, nextTimer c, onMessage c, length (ackPromises c))]\<rparr>)"
  by (simp add: sendWithAck_def Let_def setTimeout_def case_prod_beta)

lemma handle_tracked:
  assumes T: "tracked m p n c"
  shows "tracked m p n (handle env a c)"
proof (cases a)
  case Connect
  have "tracked m p n (snd (connect env c)) = tracked m p n c"
    by (rule tracked_cong) (simp_all add: connect_def Let_def split: option.split)
  with T Connect show ?thesis by simp
next
  case Disconnect
  have "tracked m p n (disconnect c) = tracked m p n c"
    by (rule tracked_cong) (simp_all add: disconnect_def split: option.split)
  with T Disconnect show ?thesis by simp
next
  case (Send m' queue)
  with send_tracked [OF T] show ?thesis by simp
next
  case (SendWithAck now random message timeout)
  define messageId where "messageId = make_messageId now random"
  let ?c3 = "c\<lparr>ackPromises := ackPromises c @ [Pending],
                timers := timers c @ [(nextTimer c, timeout, AckTimeout (length (ackPromises c)))],
                nextTimer := nextTimer c + 1,
                onMessage := AckInterceptor messageId (nextTimer c) (length (ackPromises c)) (onMessage c)\<rparr>"
  let ?r = "send env (ack_payload env messageId message) None ?c3"
  have "tracked m p n ?c3 = tracked m p n c"
    by (rule tracked_cong) simp_all
  with T have "tracked m p n ?c3" by simp
  then have "tracked m p n (snd ?r)" by (rule send_tracked)
  moreover have "tracked m p n ((snd ?r)\<lparr>awaiting := awaiting (snd ?r)
                      @ [(fst ?r, nextTimer c, onMessage c, length (ackPromises c))]\<rparr>)
                 = tracked m p n (snd ?r)"
    by (rule tracked_cong) simp_all
  ultimately show ?thesis
    using SendWithAck by (simp add: sendWithAck_unfold Let_def messageId_def)
next
  case (SocketOpen k)
  let ?c0 = "set_readyState k OPEN c"
  let ?c1 = "?c0\<lparr>isConnected := True, reconnectAttempts := 0\<rparr>"
  have "tracked m p n ?c1 = tracked m p n c"
    by (rule tracked_cong) simp_all
  with T have "tracked m p n (flushQueue env ?c1)"
    by (simp add: flushQueue_tracked)
  moreover have "tracked m p n (on_open env k ?c0) = tracked m p n (flushQueue env ?c1)"
    by (rule tracked_cong) (simp_all add: on_open_def Let_def)
  ultimately show ?thesis using SocketOpen T by simp
next
  case (SocketClose k code reason)
  have "tracked m p n (on_close code reason (set_readyState k CLOSED c)) = tracked m p n c"
    by (rule tracked_cong) (simp_all add: on_close_def attemptReconnect_def setTimeout_def Let_def)
  with T SocketClose show ?thesis by simp
next
  case (SocketError k error)
  have "tracked m p n (on_error k error c) = tracked m p n c"
    by (rule tracked_cong) (simp_all add: on_error_def Let_def)
  with T SocketError show ?thesis by simp
next
  case (SocketMessage k data)
  have "tracked m p n (on_message env data c) = tracked m p n c"
    by (rule tracked_cong) (simp_all add: on_message_def Let_def invoke_frame)
  with T SocketMessage show ?thesis by simp
next
  case (SendCallback i error)
  with sendCallback_tracked [OF T] show ?thesis by simp
next
  case (TimerFires timeoutId)
  have "tracked m p n (timerFires env timeoutId c) = tracked m p n c"
    by (rule tracked_cong)
       (simp_all add: timerFires_def clearTimeout_def connect_def Let_def
          split: option.split prod.split timer_action.split)
  with T TimerFires show ?thesis by simp
qed

lemma step_tracked: "tracked m p n c \<Longrightarrow> tracked m p n (step env a c)"
proof -
  assume "tracked m p n c"
  then have "tracked m p n (handle env a c)" by (rule handle_tracked)
  moreover have "tracked m p n (run_microtasks (handle env a c)) = tracked m p n (handle env a c)"
    by (rule tracked_cong) (simp_all add: run_microtasks_frame)
  ultimately show ?thesis by (simp add: step_def)
qed

lemma run_tracked: "tracked m p n c \<Longrightarrow> tracked m p n (run env as c)"
  by (induction as arbitrary: c) (simp_all add: run_Nil run_Cons step_tracked)

lemma settle_last: "settle (length ps) v (ps @ [Pending]) = ps @ [v]"
  by (simp add: settle_def)

lemma queued_send_tracked:
  assumes "promises_allocated c"
  shows "tracked message (length (sendPromises c)) (length (wire c))
           (c\<lparr>sendPromises := sendPromises c @ [Pending],
              messageQueue := messageQueue c @ [(message, length (sendPromises c))]\<rparr>)"
proof -
  from assms have q: "\<forall>e\<in>set (messageQueue c). snd e < length (sendPromises c)"
    and w: "\<forall>e\<in>set (wire c). fst (snd (snd e)) < length (sendPromises c)"
    by (simp_all add: promises_allocated_def list_all_iff)
  have "\<forall>i<length (wire c). fst (snd (snd (wire c ! i))) \<noteq> length (sendPromises c)"
    using w by (metis less_irrefl nth_mem)
  moreover have "\<forall>e\<in>set (messageQueue c). snd e \<noteq> length (sendPromises c)"
    using q by auto
  ultimately show ?thesis
    by (auto simp: tracked_def promise_state_def)
qed

subsection \<open>Reachable states hold only promises that exist\<close>

lemma allocated_preserved:
  assumes A: "promises_allocated c"
    and len: "length (sendPromises c) \<le> length (sendPromises c')"
    and q: "\<forall>e\<in>set (messageQueue c'). e \<in> set (messageQueue c) \<or> snd e < length (sendPromises c')"
    and w: "\<forall>e\<in>set (wire c'). e \<in> set (wire c) \<or> fst (snd (snd e)) < length (sendPromises c')"
  shows "promises_allocated c'"
proof -
  from A have qc: "\<forall>e\<in>set (messageQueue c). snd e < length (sendPromises c)"
    and wc: "\<forall>e\<in>set (wire c). fst (snd (snd e)) < length (sendPromises c)"
    by (simp_all add: promises_allocated_def list_all_iff)
  have "\<forall>e\<in>set (messageQueue c'). snd e < length (sendPromises c')"
    using q qc len by (meson less_le_trans)
  moreover have "\<forall>e\<in>set (wire c'). fst (snd (snd e)) < length (sendPromises c')"
    using w wc len by (meson less_le_trans)
  ultimately show ?thesis by (simp add: promises_allocated_def list_all_iff)
qed

lemma allocated_cong:
  "promises_allocated c \<Longrightarrow> sendPromises c' = sendPromises c \<Longrightarrow> messageQueue c' = messageQueue c
   \<Longrightarrow> wire c' = wire c \<Longrightarrow> promises_allocated c'"
  by (simp add: promises_allocated_def)

lemma sendMessage_allocated:
  assumes A: "promises_allocated c" and p: "p' < length (sendPromises c)"
  shows "promises_allocated (sendMessage env m' p' c)"
  by (rule allocated_preserved [OF A])
     (use p in \<open>auto simp: sendMessage_def length_settle split: option.split\<close>)

lemma flushQueue_allocated: "promises_allocated c \<Longrightarrow> promises_allocated (flushQueue env c)"
proof (induction env c rule: flushQueue.induct)
  case (1 env c)
  show ?case
  proof (cases "messageQueue c")
    case Nil
    with "1.prems" show ?thesis by (simp add: flushQueue_Nil)
  next
    case (Cons entry rest)
    obtain m' p' where entry: "entry = (m', p')" by (cases entry)
    have q: "messageQueue c = (m', p') # rest" using Cons entry by simp
    have p': "p' < length (sendPromises c)"
      using "1.prems" q by (simp add: promises_allocated_def)
    have "promises_allocated (c\<lparr>messageQueue := rest\<rparr>)"
      by (rule allocated_preserved [OF "1.prems"]) (simp_all add: q)
    then have "promises_allocated (sendMessage env m' p' (c\<lparr>messageQueue := rest\<rparr>))"
      by (rule sendMessage_allocated) (use p' in simp)
    then have "promises_allocated (flushQueue env (sendMessage env m' p' (c\<lparr>messageQueue := rest\<rparr>)))"
      by (rule "1.IH" [OF q refl])
    then show ?thesis by (simp add: flushQueue_Cons [OF q])
  qed
qed

lemma send_allocated:
  assumes A: "promises_allocated c"
  shows "promises_allocated (snd (send env m' queue c))"
proof -
  let ?c1 = "c\<lparr>sendPromises := sendPromises c @ [Pending]\<rparr>"
  have A1: "promises_allocated ?c1"
    by (rule allocated_preserved [OF A]) simp_all
  show ?thesis
  proof (cases "ws c = None \<or> \<not> isConnected c")
    case True
    have "promises_allocated (?c1\<lparr>messageQueue := messageQueue ?c1 @ [(m', length (sendPromises c))]\<rparr>)"
      by (rule allocated_preserved [OF A1]) auto
    moreover have "promises_allocated (?c1\<lparr>sendPromises :=
              settle (length (sendPromises c)) (Rejected ''WebSocket is not connected'') (sendPromises ?c1)\<rparr>)"
      by (rule allocated_preserved [OF A1]) (auto simp: length_settle)
    ultimately show ?thesis using True by (auto simp: send_def Let_def)
  next
    case False
    have "promises_allocated (sendMessage env m' (length (sendPromises c)) ?c1)"
      using A1 by (rule sendMessage_allocated) simp
    with False show ?thesis by (auto simp: send_def Let_def)
  qed
qed

lemma sendCallback_allocated:
  "promises_allocated c \<Longrightarrow> promises_allocated (sendCallback i error c)"
  by (erule allocated_preserved)
     (auto simp: sendCallback_def Let_def length_settle split: option.split)

lemma handle_allocated:
  assumes A: "promises_allocated c"
  shows "promises_allocated (handle env a c)"
proof (cases a)
  case Connect
  have "promises_allocated (snd (connect env c))"
    by (rule allocated_cong [OF A]) (simp_all add: connect_def Let_def split: option.split)
  with Connect show ?thesis by simp
next
  case Disconnect
  have "promises_allocated (disconnect c)"
    by (rule allocated_cong [OF A]) (simp_all add: disconnect_def split: option.split)
  with Disconnect show ?thesis by simp
next
  case (Send m' queue)
  with send_allocated [OF A] show ?thesis by simp
next
  case (SendWithAck now random message timeout)
  define messageId where "messageId = make_messageId now random"
  let ?c3 = "c\<lparr>ackPromises := ackPromises c @ [Pending],
                timers := timers c @ [(nextTimer c, timeout, AckTimeout (length (ackPromises c)))],
                nextTimer := nextTimer c + 1,
                onMessage := AckInterceptor messageId (nextTimer c) (length (ackPromises c)) (onMessage c)\<rparr>"
  let ?r = "send env (ack_payload env messageId message) None ?c3"
  have "promises_allocated ?c3"
    by (rule allocated_cong [OF A]) simp_all
  then have "promises_allocated (snd ?r)" by (rule send_allocated)
  then have "promises_allocated ((snd ?r)\<lparr>awaiting := awaiting (snd ?r)
                      @ [(fst ?r, nextTimer c, onMessage c, length (ackPromises c))]\<rparr>)"
    by (rule allocated_cong) simp_all
  then show ?thesis
    using SendWithAck by (simp add: sendWithAck_unfold Let_def messageId_def)
next
  case (SocketOpen k)
  let ?c0 = "set_readyState k OPEN c"
  let ?c1 = "?c0\<lparr>isConnected := True, reconnectAttempts := 0\<rparr>"
  have "promises_allocated ?c1"
    by (rule allocated_cong [OF A]) simp_all
  then have "promises_allocated (flushQueue env ?c1)"
    by (rule flushQueue_allocated)
  then have "promises_allocated (on_open env k ?c0)"
    by (rule allocated_cong) (simp_all add: on_open_def Let_def)
  then show ?thesis using SocketOpen A by simp
next
  case (SocketClose k code reason)
  have "promises_allocated (on_close code reason (set_readyState k CLOSED c))"
    by (rule allocated_cong [OF A])
       (simp_all add: on_close_def attemptReconnect_def setTimeout_def Let_def)
  with A SocketClose show ?thesis by simp
next
  case (SocketError k error)
  have "promises_allocated (on_error k error c)"
    by (rule allocated_cong [OF A]) (simp_all add: on_error_def Let_def)
  with A SocketError show ?thesis by simp
next
  case (SocketMessage k data)
  have "promises_allocated (on_message env data c)"
    by (rule allocated_cong [OF A]) (simp_all add: on_message_def Let_def invoke_frame)
  with A SocketMessage show ?thesis by simp
next
  case (SendCallback i error)
  with sendCallback_allocated [OF A] show ?thesis by simp
next
  case (TimerFires timeoutId)
  have "promises_allocated (timerFires env timeoutId c)"
    by (rule allocated_cong [OF A])
       (simp_all add: timerFires_def clearTimeout_def connect_def Let_def
          split: option.split prod.split timer_action.split)
  with TimerFires show ?thesis by simp
qed

lemma step_allocated: "promises_allocated c \<Longrightarrow> promises_allocated (step env a c)"
proof -
  assume "promises_allocated c"
  then have "promises_allocated (handle env a c)" by (rule handle_allocated)
  then have "promises_allocated (run_microtasks (handle env a c))"
    by (rule allocated_cong) (simp_all add: run_microtasks_frame)
  then show ?thesis by (simp add: step_def)
qed

lemma reachable_allocated: "promises_allocated (run env as (new_client options))"
proof -
  have "promises_allocated c \<Longrightarrow> promises_allocated (run env as c)" for c
    by (induction as arbitrary: c) (simp_all add: run_Nil run_Cons step_allocated)
  moreover have "promises_allocated (new_client options)"
    by (simp add: promises_allocated_def new_client_def)
  ultimately show ?thesis by simp
qed

text \<open>
  \<open>send\<close> in a state without a socket or with the flag \<open>isConnected\<close> off.
  Unless \<open>options.queue\<close> is \<open>false\<close>, the call returns a new pending promise and
  appends the payload with that promise to the queue, changing nothing else; and
  whatever happens afterwards, if that promise is resolved then a call of \<open>ws.send\<close>
  made after the \<open>send\<close> took the payload without raising, and its callback has run
  and was given no error. With \<open>options.queue\<close> false the promise returned is
  rejected with the error "WebSocket is not connected", and nothing else changes.
\<close>

lemma send_with_flag_off:
  assumes "ws c = None \<or> \<not> isConnected c" and "promises_allocated c"
  shows "(queue \<noteq> Some False \<longrightarrow>
            send env message queue c
              = (length (sendPromises c),
                 c\<lparr>sendPromises := sendPromises c @ [Pending],
                   messageQueue := messageQueue c @ [(message, length (sendPromises c))]\<rparr>)
            \<and> (\<forall>as. promise_state (sendPromises (run env as (snd (send env message queue c))))
                        (length (sendPromises c)) = Resolved ()
                   \<longrightarrow> delivered message (length (sendPromises c)) (length (wire c))
                         (run env as (snd (send env message queue c)))))
         \<and> (queue = Some False \<longrightarrow>
            send env message queue c
              = (length (sendPromises c),
                 c\<lparr>sendPromises := sendPromises c @ [Rejected ''WebSocket is not connected'']\<rparr>))"
proof (intro conjI impI allI)
  assume q: "queue \<noteq> Some False"
  show eq: "send env message queue c
              = (length (sendPromises c),
                 c\<lparr>sendPromises := sendPromises c @ [Pending],
                   messageQueue := messageQueue c @ [(message, length (sendPromises c))]\<rparr>)"
    using assms(1) q by (auto simp: send_def Let_def)
  fix as
  assume r: "promise_state (sendPromises (run env as (snd (send env message queue c))))
               (length (sendPromises c)) = Resolved ()"
  have "tracked message (length (sendPromises c)) (length (wire c))
          (run env as (snd (send env message queue c)))"
    using queued_send_tracked [OF assms(2), of message] by (simp add: eq run_tracked)
  with r show "delivered message (length (sendPromises c)) (length (wire c))
                 (run env as (snd (send env message queue c)))"
    by (simp add: tracked_def)
next
  assume "queue = Some False"
  then show "send env message queue c
              = (length (sendPromises c),
                 c\<lparr>sendPromises := sendPromises c @ [Rejected ''WebSocket is not connected'']\<rparr>)"
    using assms(1) by (auto simp: send_def Let_def settle_last)
qed


text \<open>
  C7 fails in the code when \<open>connect()\<close> is called on a client that is connected.
  \<open>connect()\<close> has no guard and leaves \<open>isConnected\<close> set while it replaces the socket
  by one that is still connecting: the connection is not open, yet \<open>send\<close> takes the
  flag at its word. The payload is not queued; it is handed to \<open>ws.send\<close> of the
  connecting socket, which raises, and the promise is rejected with the error of the
  socket library, with the default options as with \<open>queue: false\<close>. On a client
  whose flag is right, here a new one, the same calls queue the payload and reject
  with "WebSocket is not connected".
\<close>

theorem send_after_second_connect_not_queued:
  "ws (run stale_env [Connect, SocketOpen 0, Connect] (new_client default_options)) = Some 1
   \<and> readyState (run stale_env [Connect, SocketOpen 0, Connect] (new_client default_options)) 1
       = CONNECTING
   \<and> \<not> connection_open (run stale_env [Connect, SocketOpen 0, Connect] (new_client default_options))
   \<and> isConnected (run stale_env [Connect, SocketOpen 0, Connect] (new_client default_options))
   \<and> messageQueue
        (run stale_env [Connect, SocketOpen 0, Connect, Send (JStr ''A'') None]
           (new_client default_options)) = []
   \<and> sendPromises
        (run stale_env [Connect, SocketOpen 0, Connect, Send (JStr ''A'') None]
           (new_client default_options))
       = [Rejected ''WebSocket is not open: readyState 0 (CONNECTING)'']
   \<and> sendPromises
        (run stale_env [Connect, SocketOpen 0, Connect, Send (JStr ''A'') (Some False)]
           (new_client default_options))
       = [Rejected ''WebSocket is not open: readyState 0 (CONNECTING)'']
   \<and> messageQueue (run stale_env [Send (JStr ''A'') None] (new_client default_options))
       = [(JStr ''A'', 0)]
   \<and> sendPromises (run stale_env [Send (JStr ''A'') (Some False)] (new_client default_options))
       = [Rejected ''WebSocket is not connected'']"
  by (simp add: client_defs connection_open_def stale_env_def demo_env_def flushQueue_Nil Let_def)

end
